theory Spec2Isabelle
  imports Complex_Main
begin

section \<open>Data model\<close>

text \<open>
  The settlement pipeline of the privacy network: wallets, tokens, vouchers, the AML
  registry, the privacy ledger, the transaction engine and the offline manager. Every
  Python dictionary keyed by an id is a map (or an association list where the order of
  \<open>values()\<close> is observed), every dataclass is a record, every \<open>raise\<close> is a value of
  type \<open>error\<close>. Values that the source draws from its environment (\<open>uuid.uuid4()\<close>,
  \<open>datetime.now()\<close>, \<open>secrets.token_hex\<close>) are inputs of the operations.
\<close>

record Wallet =
  wallet_id :: string
  public_key :: string
  private_key :: string
  token_balance :: "string list"
  voucher_balance :: int

record Token =
  token_id :: string
  token_value :: int
  owner_wallet_id :: string
  issued_by :: string
  issue_timestamp :: "string option"

record Voucher =
  voucher_id :: string
  voucher_signature :: string
  value_limit :: int
  issued_to_wallet_id :: string
  voucher_issued_by :: string
  voucher_issue_timestamp :: "string option"
  is_used :: bool
  used_in_transaction :: "string option"

datatype ComplianceStatus = APPROVED | FLAGGED | REJECTED

record ComplianceResult =
  is_approved :: bool
  cr_status :: ComplianceStatus
  cr_reason :: "string option"
  cr_risk_score :: rat
  requires_escalation :: bool

record AMLEntry =
  aml_transaction_id :: string
  aml_sender_wallet_id :: string
  aml_receiver_wallet_id :: string
  aml_token_id :: string
  aml_amount :: int
  aml_timestamp :: string
  aml_entry_reason :: string
  aml_risk_score :: rat
  escalated :: bool
  authority_notified :: bool

datatype TransactionStatus = PENDING | COMPLETED | FAILED | CANCELLED

record 'sig Transaction =
  transaction_id :: string
  sender_wallet_id :: string
  receiver_wallet_id :: string
  tx_token_id :: string
  tx_voucher_id :: "string option"
  is_anonymous :: bool
  status :: TransactionStatus
  timestamp :: "string option"
  aml_flagged :: bool
  aml_reason :: "string option"
  signature :: "'sig option"

datatype OfflineStatus = OFF_PENDING | OFF_SIGNED | OFF_SYNCED | OFF_FAILED

record 'sig OfflineTransaction =
  offline_id :: string
  off_sender_wallet_id :: string
  off_receiver_wallet_id :: string
  off_token_id :: string
  off_value :: int
  sender_signature :: "'sig option"
  receiver_signature :: "'sig option"
  off_status :: OfflineStatus
  created_timestamp :: "string option"
  synced_timestamp :: "string option"
  off_voucher_id :: "string option"
  off_is_anonymous :: bool

datatype LedgerEntryType = ANONYMOUS | NON_ANONYMOUS | AML_FLAGGED

record LedgerEntry =
  entry_id :: nat
  le_transaction_id :: string
  le_sender_wallet_id :: string
  le_receiver_wallet_id :: string
  le_token_id :: string
  le_value :: int
  le_is_anonymous :: bool
  entry_type :: LedgerEntryType
  le_timestamp :: string
  meta_voucher_id :: "string option"
  meta_status :: string
  meta_aml_reason :: "string option"

text \<open>
  The whole system as \<open>PrivacyNetworkSystem._setup_manager_references\<close> assembles it:
  one wallet manager shared by all other managers, the token manager shared by the
  ledger, and so on. \<open>entries\<close> is keyed by the decimal rendering of \<open>entry_counter\<close>
  in the source; the key is kept as the number itself.
\<close>

record 'sig system =
  wallets :: "string \<rightharpoonup> Wallet"
  tokens :: "string \<rightharpoonup> Token"
  vouchers :: "string \<rightharpoonup> Voucher"
  aml_registry :: "AMLEntry list"
  authority_contacted :: bool
  entries :: "(nat \<times> LedgerEntry) list"
  entry_counter :: nat
  transactions :: "(string \<times> 'sig Transaction) list"
  offline_transactions :: "string \<rightharpoonup> 'sig OfflineTransaction"

text \<open>The values an operation reads from its environment.\<close>

record env =
  uuid4 :: string
  now :: string

datatype error =
    InvalidWallet
  | InvalidToken
  | InvalidVoucher
  | WalletDoesNotExist
  | RequiredArguments
  | SameSenderReceiver
  | WalletsDoNotExist
  | TokenDoesNotExist
  | SenderDoesNotOwnToken
  | VoucherDoesNotExist
  | VoucherNotSenders
  | VoucherCannotBeUsed
  | TokenTransferFailed
  | VoucherRedemptionFailed

definition empty_system :: "'sig system" where
  "empty_system = \<lparr> wallets = Map.empty, tokens = Map.empty, vouchers = Map.empty,
     aml_registry = [], authority_contacted = False, entries = [], entry_counter = 0,
     transactions = [], offline_transactions = Map.empty \<rparr>"

text \<open>Python truthiness of an \<open>Optional[str]\<close>: \<open>None\<close> and the empty string are false.\<close>

fun truthy :: "string option \<Rightarrow> bool" where
  "truthy None = False"
| "truthy (Some s) = (s \<noteq> [])"

text \<open>\<open>self.d[k] = v\<close> on a dictionary whose iteration order is observed.\<close>

fun dict_set :: "'k \<Rightarrow> 'v \<Rightarrow> ('k \<times> 'v) list \<Rightarrow> ('k \<times> 'v) list" where
  "dict_set k v [] = [(k, v)]"
| "dict_set k v (p # ps) = (if fst p = k then (k, v) # ps else p # dict_set k v ps)"

section \<open>wallet.py\<close>

definition add_token :: "string \<Rightarrow> Wallet \<Rightarrow> Wallet" where
  "add_token t w =
     (if t \<notin> set (token_balance w) then w\<lparr>token_balance := token_balance w @ [t]\<rparr> else w)"

definition remove_token :: "string \<Rightarrow> Wallet \<Rightarrow> bool \<times> Wallet" where
  "remove_token t w =
     (if t \<in> set (token_balance w)
      then (True, w\<lparr>token_balance := remove1 t (token_balance w)\<rparr>)
      else (False, w))"

definition add_voucher :: "int \<Rightarrow> Wallet \<Rightarrow> Wallet" where
  "add_voucher n w = w\<lparr>voucher_balance := voucher_balance w + n\<rparr>"

definition use_voucher :: "Wallet \<Rightarrow> bool \<times> Wallet" where
  "use_voucher w =
     (if voucher_balance w > 0
      then (True, w\<lparr>voucher_balance := voucher_balance w - 1\<rparr>)
      else (False, w))"

text \<open>
  \<open>WalletManager.create_wallet\<close>: the id comes from \<open>uuid4\<close>, the private key from
  \<open>secrets.token_hex\<close> and the public key is its SHA-256 digest; all three are inputs
  here. \<open>Wallet.__post_init__\<close> rejects an empty id or key.
\<close>

definition create_wallet ::
  "string \<Rightarrow> string \<Rightarrow> string \<Rightarrow> 'sig system \<Rightarrow> error + Wallet \<times> 'sig system" where
  "create_wallet wid pub priv s =
     (if wid = [] \<or> pub = [] \<or> priv = [] then Inl InvalidWallet
      else let w = \<lparr> wallet_id = wid, public_key = pub, private_key = priv,
                      token_balance = [], voucher_balance = 0 \<rparr>
           in Inr (w, s\<lparr>wallets := (wallets s)(wid \<mapsto> w)\<rparr>))"

definition get_wallet :: "'sig system \<Rightarrow> string \<Rightarrow> Wallet option" where
  "get_wallet s wid = wallets s wid"

definition wallet_exists :: "'sig system \<Rightarrow> string \<Rightarrow> bool" where
  "wallet_exists s wid = (wid \<in> dom (wallets s))"

text \<open>\<open>w = get_wallet(id); if w: w.method()\<close>: a mutation of the wallet stored under the id.\<close>

definition with_wallet :: "string \<Rightarrow> (Wallet \<Rightarrow> Wallet) \<Rightarrow> 'sig system \<Rightarrow> 'sig system" where
  "with_wallet wid f s =
     (case get_wallet s wid of
        None \<Rightarrow> s
      | Some w \<Rightarrow> s\<lparr>wallets := (wallets s)(wid \<mapsto> f w)\<rparr>)"

section \<open>token\_system.py\<close>

definition get_token :: "'sig system \<Rightarrow> string \<Rightarrow> Token option" where
  "get_token s tid = tokens s tid"

definition issue_token ::
  "env \<Rightarrow> int \<Rightarrow> string \<Rightarrow> 'sig system \<Rightarrow> error + Token \<times> 'sig system" where
  "issue_token e v owner s =
     (if \<not> wallet_exists s owner then Inl WalletDoesNotExist
      else if uuid4 e = [] \<or> v \<le> 0 \<or> owner = [] then Inl InvalidToken
      else let tok = \<lparr> token_id = uuid4 e, token_value = v, owner_wallet_id = owner,
                        issued_by = ''ECB'', issue_timestamp = None \<rparr>;
               s1 = s\<lparr>tokens := (tokens s)(uuid4 e \<mapsto> tok)\<rparr>
           in Inr (tok, with_wallet owner (add_token (uuid4 e)) s1))"

text \<open>\<open>Token.transfer_ownership\<close>: an empty new owner is refused and the token kept.\<close>

definition transfer_ownership :: "string \<Rightarrow> Token \<Rightarrow> bool \<times> Token" where
  "transfer_ownership new_owner tok =
     (if new_owner \<noteq> [] then (True, tok\<lparr>owner_wallet_id := new_owner\<rparr>) else (False, tok))"

definition transfer_token ::
  "string \<Rightarrow> string \<Rightarrow> string \<Rightarrow> 'sig system \<Rightarrow> bool \<times> 'sig system" where
  "transfer_token tid sender receiver s =
     (case get_token s tid of
        None \<Rightarrow> (False, s)
      | Some tok \<Rightarrow>
          if owner_wallet_id tok \<noteq> sender then (False, s)
          else if \<not> (wallet_exists s sender \<and> wallet_exists s receiver) then (False, s)
          else let s1 = with_wallet sender (\<lambda>w. snd (remove_token tid w)) s;
                   s2 = with_wallet receiver (add_token tid) s1
               in (True, s2\<lparr>tokens := (tokens s2)(tid \<mapsto> snd (transfer_ownership receiver tok))\<rparr>))"

section \<open>voucher.py\<close>

definition can_be_used_for_value :: "Voucher \<Rightarrow> int \<Rightarrow> bool" where
  "can_be_used_for_value v x = (\<not> is_used v \<and> x \<le> value_limit v)"

definition mark_as_used :: "string \<Rightarrow> Voucher \<Rightarrow> bool \<times> Voucher" where
  "mark_as_used txid v =
     (if \<not> is_used v then (True, v\<lparr>is_used := True, used_in_transaction := Some txid\<rparr>)
      else (False, v))"

definition get_voucher :: "'sig system \<Rightarrow> string \<Rightarrow> Voucher option" where
  "get_voucher s vid = vouchers s vid"

text \<open>
  \<open>VoucherManager.issue_voucher\<close>. The authority signature is the SHA-256 digest of the
  canonical voucher payload and the authority key; it is the input \<open>sig\<close>.
  \<open>Voucher.__post_init__\<close> rejects an empty id or signature and a limit that is not
  positive, before anything is stored.
\<close>

definition issue_voucher ::
  "env \<Rightarrow> string \<Rightarrow> string \<Rightarrow> int \<Rightarrow> 'sig system \<Rightarrow> error + Voucher \<times> 'sig system" where
  "issue_voucher e sig wid limit s =
     (if \<not> wallet_exists s wid then Inl WalletDoesNotExist
      else if uuid4 e = [] \<or> sig = [] \<or> limit \<le> 0 then Inl InvalidVoucher
      else let v = \<lparr> voucher_id = uuid4 e, voucher_signature = sig, value_limit = limit,
                      issued_to_wallet_id = wid, voucher_issued_by = ''AMLAuthority'',
                      voucher_issue_timestamp = Some (now e), is_used = False,
                      used_in_transaction = None \<rparr>;
               s1 = s\<lparr>vouchers := (vouchers s)(uuid4 e \<mapsto> v)\<rparr>
           in Inr (v, with_wallet wid (add_voucher 1) s1))"

definition redeem_voucher ::
  "string \<Rightarrow> string \<Rightarrow> int \<Rightarrow> 'sig system \<Rightarrow> bool \<times> 'sig system" where
  "redeem_voucher vid txid x s =
     (case get_voucher s vid of
        None \<Rightarrow> (False, s)
      | Some v \<Rightarrow>
          if \<not> can_be_used_for_value v x then (False, s)
          else let r = mark_as_used txid v
               in if fst r
                  then (True, with_wallet (issued_to_wallet_id v) (\<lambda>w. snd (use_voucher w))
                                (s\<lparr>vouchers := (vouchers s)(vid \<mapsto> snd r)\<rparr>))
                  else (False, s))"

section \<open>Signing\<close>

text \<open>
  \<open>Wallet.sign_transaction\<close> is
  \<open>sha256((json.dumps(data, sort_keys=True) + private_key).encode()).hexdigest()\<close>.
  The dictionary is an association list of JSON values; the digest of a dictionary and a
  key is the parameter \<open>D\<close> of every operation that signs, with values in a type
  \<open>'sig\<close> of signatures (in the source, strings of 64 hexadecimal digits, never empty).
\<close>

datatype 'sig jval = JNull | JBool bool | JInt int | JStr string | JSig 'sig

type_synonym 'sig payload = "(string \<times> 'sig jval) list"

definition jopt :: "string option \<Rightarrow> 'sig jval" where
  "jopt x = (case x of None \<Rightarrow> JNull | Some s \<Rightarrow> JStr s)"

definition jsig :: "'sig option \<Rightarrow> 'sig jval" where
  "jsig x = (case x of None \<Rightarrow> JNull | Some g \<Rightarrow> JSig g)"

text \<open>\<open>d.pop(k, None)\<close>\<close>

definition dict_pop :: "'k \<Rightarrow> ('k \<times> 'v) list \<Rightarrow> ('k \<times> 'v) list" where
  "dict_pop k d = filter (\<lambda>p. fst p \<noteq> k) d"

definition sign_transaction ::
  "('sig payload \<Rightarrow> string \<Rightarrow> 'sig) \<Rightarrow> Wallet \<Rightarrow> 'sig payload \<Rightarrow> 'sig" where
  "sign_transaction D w d = D d (private_key w)"

definition verify_signature ::
  "('sig payload \<Rightarrow> string \<Rightarrow> 'sig) \<Rightarrow> Wallet \<Rightarrow> 'sig payload \<Rightarrow> 'sig \<Rightarrow> bool" where
  "verify_signature D w d g = (g = D d (private_key w))"

text \<open>
  A digest without collisions between different dictionaries, which is what SHA-256 over
  the canonical serialisation is taken to be.
\<close>

definition collision_free :: "('sig payload \<Rightarrow> string \<Rightarrow> 'sig) \<Rightarrow> bool" where
  "collision_free D = (\<forall>p q k. D p k = D q k \<longrightarrow> p = q)"

text \<open>The free digest: a signature is the pair of what was signed and the key.\<close>

datatype digest = Digest "(string \<times> digest jval) list" string

section \<open>compliance.py\<close>

text \<open>Decimal rendering of an integer, for the f-string of the first rule.\<close>

function show_nat :: "nat \<Rightarrow> string" where
  "show_nat n =
     (if n < 10 then [char_of (48 + n)]
      else show_nat (n div 10) @ [char_of (48 + n mod 10)])"
  by pat_completeness auto
termination
  by (relation "measure (\<lambda>n. n)") auto

definition show_int :: "int \<Rightarrow> string" where
  "show_int i = (if i < 0 then CHR ''-'' # show_nat (nat (- i)) else show_nat (nat i))"

text \<open>The euro sign, as its three UTF-8 bytes.\<close>

definition euro :: string where
  "euro = [char_of (226::nat), char_of (130::nat), char_of (172::nat)]"

fun join :: "string \<Rightarrow> string list \<Rightarrow> string" where
  "join sep [] = []"
| "join sep [x] = x"
| "join sep (x # y # ys) = x @ sep @ join sep (y # ys)"

definition high_value_threshold :: int where
  "high_value_threshold = 100"

text \<open>\<open>_get_recent_transactions\<close> is a mock that returns no transaction.\<close>

definition get_recent_transactions :: "string \<Rightarrow> nat \<Rightarrow> (string \<times> int) list list" where
  "get_recent_transactions wid hours = []"

text \<open>\<open>tx.get('amount', 0)\<close>\<close>

definition get_amount :: "(string \<times> int) list \<Rightarrow> int" where
  "get_amount d = (case map_of d ''amount'' of None \<Rightarrow> 0 | Some a \<Rightarrow> a)"

definition check_suspicious_patterns :: "'sig Transaction \<Rightarrow> Token \<Rightarrow> bool" where
  "check_suspicious_patterns tx tok =
     (let recent = get_recent_transactions (sender_wallet_id tx) 24;
          high_value_count = length (filter (\<lambda>d. get_amount d > 50) recent)
      in if high_value_count > 3 then True else False)"

definition escalate_to_authority :: "AMLEntry \<Rightarrow> AMLEntry" where
  "escalate_to_authority a = a\<lparr>authority_notified := True\<rparr>"

text \<open>
  \<open>_create_aml_entry\<close> appends the entry and then, for a score of at least 0.8, sets
  \<open>escalated\<close> and \<open>authority_notified\<close> on the appended object and
  \<open>authority_contacted\<close> on the manager.
\<close>

definition create_aml_entry ::
  "env \<Rightarrow> 'sig Transaction \<Rightarrow> Token \<Rightarrow> rat \<Rightarrow> string list \<Rightarrow> 'sig system \<Rightarrow> 'sig system" where
  "create_aml_entry e tx tok risk reasons s =
     (let a = \<lparr> aml_transaction_id = transaction_id tx,
                 aml_sender_wallet_id = sender_wallet_id tx,
                 aml_receiver_wallet_id = receiver_wallet_id tx,
                 aml_token_id = tx_token_id tx,
                 aml_amount = token_value tok,
                 aml_timestamp = (case timestamp tx of
                                    None \<Rightarrow> now e
                                  | Some t \<Rightarrow> if t \<noteq> [] then t else now e),
                 aml_entry_reason = join ''; '' reasons,
                 aml_risk_score = risk,
                 escalated = False, authority_notified = False \<rparr>
      in if risk \<ge> 0.8
         then s\<lparr>aml_registry := aml_registry s @ [escalate_to_authority (a\<lparr>escalated := True\<rparr>)],
                authority_contacted := True\<rparr>
         else s\<lparr>aml_registry := aml_registry s @ [a]\<rparr>)"

text \<open>
  \<open>check_transaction\<close>. The score is a Python float that starts at 0.0 and receives
  0.7, 0.3 and 0.5; it is a rational here. The third rule never fires, so the scores
  that arise are 0, 0.3, 0.7 and 0.7 + 0.3, whose float values compare with 0.5 and 0.8
  as the rationals do (0.7 + 0.3 is exactly 1.0 in binary64).
\<close>

definition check_transaction ::
  "env \<Rightarrow> 'sig Transaction \<Rightarrow> Token \<Rightarrow> 'sig system \<Rightarrow> ComplianceResult \<times> 'sig system" where
  "check_transaction e tx tok s =
     (let r0 = (0, []);
          r1 = (if token_value tok > high_value_threshold
                then (fst r0 + 0.7,
                      snd r0 @ [''High value transaction: '' @ euro @ show_int (token_value tok)])
                else r0);
          r2 = (if \<not> is_anonymous tx
                then (fst r1 + 0.3, snd r1 @ [''Non-anonymous transaction''])
                else r1);
          r3 = (if check_suspicious_patterns tx tok
                then (fst r2 + 0.5, snd r2 @ [''Suspicious transaction pattern detected''])
                else r2);
          risk_score = fst r3;
          reasons = snd r3;
          st = (if risk_score \<ge> 0.8 then (FLAGGED, True)
                else if risk_score \<ge> 0.5 then (FLAGGED, True)
                else (APPROVED, True));
          s' = (if fst st = FLAGGED then create_aml_entry e tx tok risk_score reasons s else s)
      in (\<lparr> is_approved = snd st, cr_status = fst st,
             cr_reason = (if reasons \<noteq> [] then Some (join ''; '' reasons) else None),
             cr_risk_score = risk_score,
             requires_escalation = (risk_score \<ge> 0.8) \<rparr>, s'))"

section \<open>ledger.py\<close>

fun status_value :: "TransactionStatus \<Rightarrow> string" where
  "status_value PENDING = ''pending''"
| "status_value COMPLETED = ''completed''"
| "status_value FAILED = ''failed''"
| "status_value CANCELLED = ''cancelled''"

text \<open>
  \<open>LedgerManager.store_transaction\<close>. The entry is stored under the current counter and
  the counter advances. Rewriting the ledger file (\<open>_save_ledger\<close>) is outside the
  model: the ledger is the dictionary in memory.
\<close>

definition store_transaction ::
  "env \<Rightarrow> 'sig Transaction \<Rightarrow> 'sig system \<Rightarrow> nat \<times> 'sig system" where
  "store_transaction e tx s =
     (let eid = entry_counter s;
          s1 = s\<lparr>entry_counter := entry_counter s + 1\<rparr>;
          etype = (if aml_flagged tx then AML_FLAGGED
                   else if is_anonymous tx then ANONYMOUS
                   else NON_ANONYMOUS);
          tv = (case get_token s1 (tx_token_id tx) of None \<Rightarrow> 0 | Some tok \<Rightarrow> token_value tok);
          entry = \<lparr> entry_id = eid,
                     le_transaction_id = transaction_id tx,
                     le_sender_wallet_id = sender_wallet_id tx,
                     le_receiver_wallet_id = receiver_wallet_id tx,
                     le_token_id = tx_token_id tx,
                     le_value = tv,
                     le_is_anonymous = is_anonymous tx,
                     entry_type = etype,
                     le_timestamp = (case timestamp tx of
                                       None \<Rightarrow> now e
                                     | Some t \<Rightarrow> if t \<noteq> [] then t else now e),
                     meta_voucher_id = tx_voucher_id tx,
                     meta_status = status_value (status tx),
                     meta_aml_reason = aml_reason tx \<rparr>
      in (eid, s1\<lparr>entries := dict_set eid entry (entries s1)\<rparr>))"

definition get_entries_by_transaction :: "'sig system \<Rightarrow> string \<Rightarrow> LedgerEntry list" where
  "get_entries_by_transaction s txid =
     filter (\<lambda>en. le_transaction_id en = txid) (map snd (entries s))"

section \<open>transaction.py\<close>

definition to_dict :: "'sig Transaction \<Rightarrow> 'sig payload" where
  "to_dict tx =
     [(''transaction_id'', JStr (transaction_id tx)),
      (''sender_wallet_id'', JStr (sender_wallet_id tx)),
      (''receiver_wallet_id'', JStr (receiver_wallet_id tx)),
      (''token_id'', JStr (tx_token_id tx)),
      (''voucher_id'', jopt (tx_voucher_id tx)),
      (''is_anonymous'', JBool (is_anonymous tx)),
      (''status'', JStr (status_value (status tx))),
      (''timestamp'', jopt (timestamp tx)),
      (''aml_flagged'', JBool (aml_flagged tx)),
      (''aml_reason'', jopt (aml_reason tx)),
      (''signature'', jsig (signature tx))]"

text \<open>
  The voucher block that \<open>execute_transfer\<close> and \<open>create_offline_transaction\<close> both
  run after the ownership check; its result is \<open>is_anonymous\<close>.
\<close>

definition check_voucher ::
  "'sig system \<Rightarrow> string \<Rightarrow> Token \<Rightarrow> string option \<Rightarrow> error + bool" where
  "check_voucher s sender tok vid =
     (if truthy vid then
        (case get_voucher s (the vid) of
           None \<Rightarrow> Inl VoucherDoesNotExist
         | Some v \<Rightarrow>
             if issued_to_wallet_id v \<noteq> sender then Inl VoucherNotSenders
             else if \<not> can_be_used_for_value v (token_value tok) then Inl VoucherCannotBeUsed
             else Inr True)
      else Inr False)"

text \<open>The \<open>try\<close> block of \<open>execute_transfer\<close>; a failure drops the transaction object.\<close>

definition execute_body ::
  "('sig payload \<Rightarrow> string \<Rightarrow> 'sig) \<Rightarrow> env \<Rightarrow> 'sig Transaction \<Rightarrow> Token \<Rightarrow> 'sig system
     \<Rightarrow> (error + 'sig Transaction) \<times> 'sig system" where
  "execute_body D e tx tok s =
     (let r = transfer_token (tx_token_id tx) (sender_wallet_id tx) (receiver_wallet_id tx) s
      in if \<not> fst r then (Inl TokenTransferFailed, snd r)
         else let v = (if truthy (tx_voucher_id tx)
                       then redeem_voucher (the (tx_voucher_id tx)) (transaction_id tx)
                              (token_value tok) (snd r)
                       else (True, snd r))
              in if \<not> fst v then (Inl VoucherRedemptionFailed, snd v)
                 else let tx1 = (case get_wallet (snd v) (sender_wallet_id tx) of
                                   None \<Rightarrow> tx
                                 | Some w \<Rightarrow> tx\<lparr>signature := Some (sign_transaction D w (to_dict tx))\<rparr>);
                          tx2 = tx1\<lparr>status := COMPLETED\<rparr>;
                          s1 = snd (store_transaction e tx2 (snd v))
                      in (Inr tx2, s1\<lparr>transactions := dict_set (transaction_id tx) tx2 (transactions s1)\<rparr>))"

definition execute_transfer ::
  "('sig payload \<Rightarrow> string \<Rightarrow> 'sig) \<Rightarrow> env \<Rightarrow> string \<Rightarrow> string \<Rightarrow> string \<Rightarrow> string option
     \<Rightarrow> 'sig system \<Rightarrow> (error + 'sig Transaction) \<times> 'sig system" where
  "execute_transfer D e sender receiver tid vid s =
     (if sender = [] \<or> receiver = [] \<or> tid = [] then (Inl RequiredArguments, s)
      else if sender = receiver then (Inl SameSenderReceiver, s)
      else if \<not> (wallet_exists s sender \<and> wallet_exists s receiver) then (Inl WalletsDoNotExist, s)
      else case get_token s tid of
             None \<Rightarrow> (Inl TokenDoesNotExist, s)
           | Some tok \<Rightarrow>
               if owner_wallet_id tok \<noteq> sender then (Inl SenderDoesNotOwnToken, s)
               else (case check_voucher s sender tok vid of
                      Inl err \<Rightarrow> (Inl err, s)
                    | Inr anon \<Rightarrow>
                        let tx = \<lparr> transaction_id = uuid4 e, sender_wallet_id = sender,
                                   receiver_wallet_id = receiver, tx_token_id = tid,
                                   tx_voucher_id = vid, is_anonymous = anon, status = PENDING,
                                   timestamp = Some (now e), aml_flagged = False,
                                   aml_reason = None, signature = None \<rparr>;
                            c = check_transaction e tx tok s;
                            tx1 = tx\<lparr>aml_flagged := (cr_status (fst c) = FLAGGED),
                                      aml_reason := cr_reason (fst c)\<rparr>
                        in execute_body D e tx1 tok (snd c)))"

definition get_transaction :: "'sig system \<Rightarrow> string \<Rightarrow> 'sig Transaction option" where
  "get_transaction s txid = map_of (transactions s) txid"

definition list_all_transactions :: "'sig system \<Rightarrow> 'sig Transaction list" where
  "list_all_transactions s = map snd (transactions s)"

definition get_transactions_by_wallet :: "'sig system \<Rightarrow> string \<Rightarrow> 'sig Transaction list" where
  "get_transactions_by_wallet s wid =
     filter (\<lambda>tx. sender_wallet_id tx = wid \<or> receiver_wallet_id tx = wid) (map snd (transactions s))"

definition get_anonymous_transactions :: "'sig system \<Rightarrow> 'sig Transaction list" where
  "get_anonymous_transactions s = filter is_anonymous (map snd (transactions s))"

definition get_non_anonymous_transactions :: "'sig system \<Rightarrow> 'sig Transaction list" where
  "get_non_anonymous_transactions s = filter (\<lambda>tx. \<not> is_anonymous tx) (map snd (transactions s))"

definition get_aml_flagged_transactions :: "'sig system \<Rightarrow> 'sig Transaction list" where
  "get_aml_flagged_transactions s = filter aml_flagged (map snd (transactions s))"

definition get_completed_transactions :: "'sig system \<Rightarrow> 'sig Transaction list" where
  "get_completed_transactions s = filter (\<lambda>tx. status tx = COMPLETED) (map snd (transactions s))"

definition get_failed_transactions :: "'sig system \<Rightarrow> 'sig Transaction list" where
  "get_failed_transactions s = filter (\<lambda>tx. status tx = FAILED) (map snd (transactions s))"

text \<open>
  \<open>verify_transaction_signature\<close>: the stored transaction is serialised again, the
  \<open>signature\<close> key is removed, and the sender's digest of that is compared with the
  stored signature.
\<close>

definition verify_transaction_signature ::
  "('sig payload \<Rightarrow> string \<Rightarrow> 'sig) \<Rightarrow> 'sig system \<Rightarrow> string \<Rightarrow> bool" where
  "verify_transaction_signature D s txid =
     (case get_transaction s txid of
        None \<Rightarrow> False
      | Some tx \<Rightarrow>
          (case signature tx of
             None \<Rightarrow> False
           | Some g \<Rightarrow>
               (case get_wallet s (sender_wallet_id tx) of
                  None \<Rightarrow> False
                | Some w \<Rightarrow> verify_signature D w (dict_pop ''signature'' (to_dict tx)) g)))"

section \<open>offline.py\<close>

definition create_offline_transaction ::
  "env \<Rightarrow> string \<Rightarrow> string \<Rightarrow> string \<Rightarrow> string option \<Rightarrow> 'sig system
     \<Rightarrow> error + 'sig OfflineTransaction \<times> 'sig system" where
  "create_offline_transaction e sender receiver tid vid s =
     (if sender = [] \<or> receiver = [] \<or> tid = [] then Inl RequiredArguments
      else if sender = receiver then Inl SameSenderReceiver
      else if \<not> (wallet_exists s sender \<and> wallet_exists s receiver) then Inl WalletsDoNotExist
      else case get_token s tid of
             None \<Rightarrow> Inl TokenDoesNotExist
           | Some tok \<Rightarrow>
               if owner_wallet_id tok \<noteq> sender then Inl SenderDoesNotOwnToken
               else (case check_voucher s sender tok vid of
                      Inl err \<Rightarrow> Inl err
                    | Inr anon \<Rightarrow>
                        let otx = \<lparr> offline_id = uuid4 e, off_sender_wallet_id = sender,
                                    off_receiver_wallet_id = receiver, off_token_id = tid,
                                    off_value = token_value tok, sender_signature = None,
                                    receiver_signature = None, off_status = OFF_PENDING,
                                    created_timestamp = Some (now e), synced_timestamp = None,
                                    off_voucher_id = vid, off_is_anonymous = anon \<rparr>
                        in Inr (otx, s\<lparr>offline_transactions :=
                                          (offline_transactions s)(uuid4 e \<mapsto> otx)\<rparr>)))"

definition offline_payload :: "'sig OfflineTransaction \<Rightarrow> 'sig payload" where
  "offline_payload otx =
     [(''offline_id'', JStr (offline_id otx)),
      (''sender_wallet_id'', JStr (off_sender_wallet_id otx)),
      (''receiver_wallet_id'', JStr (off_receiver_wallet_id otx)),
      (''token_id'', JStr (off_token_id otx)),
      (''value'', JInt (off_value otx)),
      (''voucher_id'', jopt (off_voucher_id otx)),
      (''is_anonymous'', JBool (off_is_anonymous otx))]"

definition verify_offline_signature ::
  "('sig payload \<Rightarrow> string \<Rightarrow> 'sig) \<Rightarrow> 'sig system \<Rightarrow> 'sig OfflineTransaction \<Rightarrow> string
     \<Rightarrow> 'sig \<Rightarrow> bool" where
  "verify_offline_signature D s otx wid g =
     (case get_wallet s wid of
        None \<Rightarrow> False
      | Some w \<Rightarrow> g = sign_transaction D w (offline_payload otx))"

definition sign_offline_transaction ::
  "('sig payload \<Rightarrow> string \<Rightarrow> 'sig) \<Rightarrow> string \<Rightarrow> string \<Rightarrow> 'sig \<Rightarrow> 'sig system
     \<Rightarrow> bool \<times> 'sig system" where
  "sign_offline_transaction D oid wid g s =
     (case offline_transactions s oid of
        None \<Rightarrow> (False, s)
      | Some otx \<Rightarrow>
          if \<not> verify_offline_signature D s otx wid g then (False, s)
          else if wid \<noteq> off_sender_wallet_id otx \<and> wid \<noteq> off_receiver_wallet_id otx
          then (False, s)
          else let otx1 = (if wid = off_sender_wallet_id otx
                           then otx\<lparr>sender_signature := Some g\<rparr>
                           else otx\<lparr>receiver_signature := Some g\<rparr>);
                   otx2 = (if sender_signature otx1 \<noteq> None \<and> receiver_signature otx1 \<noteq> None
                           then otx1\<lparr>off_status := OFF_SIGNED\<rparr>
                           else otx1)
               in (True, s\<lparr>offline_transactions := (offline_transactions s)(oid \<mapsto> otx2)\<rparr>))"

text \<open>
  The \<open>MockTransaction\<close> that \<open>sync_with_ledger\<close> hands to the ledger: the offline id as
  transaction id, the creation time as timestamp, \<open>aml_flagged = False\<close>,
  \<open>aml_reason = None\<close> and a status whose value is \<open>completed\<close>.
\<close>

definition MockTransaction :: "'sig OfflineTransaction \<Rightarrow> 'sig Transaction" where
  "MockTransaction otx =
     \<lparr> transaction_id = offline_id otx, sender_wallet_id = off_sender_wallet_id otx,
       receiver_wallet_id = off_receiver_wallet_id otx, tx_token_id = off_token_id otx,
       tx_voucher_id = off_voucher_id otx, is_anonymous = off_is_anonymous otx,
       status = COMPLETED, timestamp = created_timestamp otx, aml_flagged = False,
       aml_reason = None, signature = None \<rparr>"

text \<open>
  \<open>sync_with_ledger\<close>. Its \<open>except\<close> branch is reached only when the ledger write
  raises, which the model does not have; the two failures it handles itself (the token
  transfer and the voucher redemption) set the status to failed and return false.
\<close>

definition set_offline ::
  "string \<Rightarrow> 'sig OfflineTransaction \<Rightarrow> 'sig system \<Rightarrow> 'sig system" where
  "set_offline oid otx s = s\<lparr>offline_transactions := (offline_transactions s)(oid \<mapsto> otx)\<rparr>"

definition sync_with_ledger :: "env \<Rightarrow> string \<Rightarrow> 'sig system \<Rightarrow> bool \<times> 'sig system" where
  "sync_with_ledger e oid s =
     (case offline_transactions s oid of
        None \<Rightarrow> (False, s)
      | Some otx \<Rightarrow>
          if off_status otx \<noteq> OFF_SIGNED then (False, s)
          else let r = transfer_token (off_token_id otx) (off_sender_wallet_id otx)
                         (off_receiver_wallet_id otx) s
               in if \<not> fst r then (False, set_offline oid (otx\<lparr>off_status := OFF_FAILED\<rparr>) (snd r))
                  else let v = (if truthy (off_voucher_id otx)
                                then redeem_voucher (the (off_voucher_id otx)) (offline_id otx)
                                       (off_value otx) (snd r)
                                else (True, snd r))
                       in if \<not> fst v
                          then (False, set_offline oid (otx\<lparr>off_status := OFF_FAILED\<rparr>) (snd v))
                          else let s1 = snd (store_transaction e (MockTransaction otx) (snd v))
                               in (True, set_offline oid
                                           (otx\<lparr>off_status := OFF_SYNCED,
                                                synced_timestamp := Some (now e)\<rparr>) s1))"

section \<open>Runs of the system\<close>

text \<open>
  \<open>LedgerManager._load_ledger\<close>: with no ledger file the ledger stays empty; otherwise
  every entry of the file is stored under its id and the counter is raised above it.
\<close>

fun load_entries :: "LedgerEntry list \<Rightarrow> 'sig system \<Rightarrow> 'sig system" where
  "load_entries [] s = s"
| "load_entries (en # ens) s =
     load_entries ens
       (s\<lparr>entries := dict_set (entry_id en) en (entries s),
          entry_counter := max (entry_counter s) (entry_id en + 1)\<rparr>)"

definition load_ledger :: "LedgerEntry list option \<Rightarrow> 'sig system \<Rightarrow> 'sig system" where
  "load_ledger file s =
     (case file of None \<Rightarrow> s | Some ens \<Rightarrow> load_entries ens (s\<lparr>entries := []\<rparr>))"

text \<open>The public operations of the managers, as calls with their arguments.\<close>

datatype 'sig command =
    CreateWallet string string string
  | IssueToken env int string
  | TransferToken string string string
  | IssueVoucher env string string int
  | RedeemVoucher string string int
  | ExecuteTransfer env string string string "string option"
  | CreateOffline env string string string "string option"
  | SignOffline string string 'sig
  | SyncWithLedger env string

text \<open>The state after a call; a call that raises before any mutation leaves the state as it is.\<close>

fun exec :: "('sig payload \<Rightarrow> string \<Rightarrow> 'sig) \<Rightarrow> 'sig command \<Rightarrow> 'sig system \<Rightarrow> 'sig system" where
  "exec D (CreateWallet wid pub priv) s =
     (case create_wallet wid pub priv s of Inl err \<Rightarrow> s | Inr r \<Rightarrow> snd r)"
| "exec D (IssueToken e v owner) s =
     (case issue_token e v owner s of Inl err \<Rightarrow> s | Inr r \<Rightarrow> snd r)"
| "exec D (TransferToken tid sender receiver) s = snd (transfer_token tid sender receiver s)"
| "exec D (IssueVoucher e g wid limit) s =
     (case issue_voucher e g wid limit s of Inl err \<Rightarrow> s | Inr r \<Rightarrow> snd r)"
| "exec D (RedeemVoucher vid txid x) s = snd (redeem_voucher vid txid x s)"
| "exec D (ExecuteTransfer e sender receiver tid vid) s =
     snd (execute_transfer D e sender receiver tid vid s)"
| "exec D (CreateOffline e sender receiver tid vid) s =
     (case create_offline_transaction e sender receiver tid vid s of Inl err \<Rightarrow> s | Inr r \<Rightarrow> snd r)"
| "exec D (SignOffline oid wid g) s = snd (sign_offline_transaction D oid wid g s)"
| "exec D (SyncWithLedger e oid) s = snd (sync_with_ledger e oid s)"

text \<open>
  What the environment guarantees for a call: an id drawn from \<open>uuid4\<close> is not in use,
  and \<open>datetime.now().isoformat()\<close> is not the empty string.
\<close>

fun admissible :: "'sig command \<Rightarrow> 'sig system \<Rightarrow> bool" where
  "admissible (CreateWallet wid pub priv) s = (wid \<notin> dom (wallets s))"
| "admissible (IssueToken e v owner) s = (uuid4 e \<notin> dom (tokens s))"
| "admissible (IssueVoucher e g wid limit) s = (uuid4 e \<notin> dom (vouchers s))"
| "admissible (ExecuteTransfer e sender receiver tid vid) s =
     (uuid4 e \<notin> fst ` set (transactions s) \<and> now e \<noteq> [])"
| "admissible (CreateOffline e sender receiver tid vid) s =
     (uuid4 e \<notin> dom (offline_transactions s) \<and> now e \<noteq> [])"
| "admissible (SyncWithLedger e oid) s = (now e \<noteq> [])"
| "admissible c s = True"

inductive reachable :: "('sig payload \<Rightarrow> string \<Rightarrow> 'sig) \<Rightarrow> 'sig system \<Rightarrow> bool"
  for D :: "'sig payload \<Rightarrow> string \<Rightarrow> 'sig" where
  initial: "reachable D (load_ledger file empty_system)"
| step: "reachable D s \<Longrightarrow> admissible c s \<Longrightarrow> reachable D (exec D c s)"

fun run :: "('sig payload \<Rightarrow> string \<Rightarrow> 'sig) \<Rightarrow> 'sig command list \<Rightarrow> 'sig system \<Rightarrow> 'sig system" where
  "run D [] s = s"
| "run D (c # cs) s = run D cs (exec D c s)"

fun run_admissible :: "('sig payload \<Rightarrow> string \<Rightarrow> 'sig) \<Rightarrow> 'sig command list \<Rightarrow> 'sig system \<Rightarrow> bool" where
  "run_admissible D [] s = True"
| "run_admissible D (c # cs) s = (admissible c s \<and> run_admissible D cs (exec D c s))"

section \<open>Scenarios\<close>

definition env_at :: "string \<Rightarrow> env" where
  "env_at i = \<lparr> uuid4 = i, now = ''2025-01-01T00:00:00'' \<rparr>"

definition tx_demo :: "digest Transaction" where
  "tx_demo = \<lparr> transaction_id = ''tx-1'', sender_wallet_id = ''w1'', receiver_wallet_id = ''w2'',
     tx_token_id = ''t1'', tx_voucher_id = None, is_anonymous = False, status = PENDING,
     timestamp = Some ''2025-01-01T00:00:00'', aml_flagged = False, aml_reason = None,
     signature = None \<rparr>"

definition token_demo :: "int \<Rightarrow> Token" where
  "token_demo v = \<lparr> token_id = ''t1'', token_value = v, owner_wallet_id = ''w1'',
     issued_by = ''ECB'', issue_timestamp = None \<rparr>"

text \<open>Two wallets; the first holds a token of value \<open>v\<close> and a voucher of limit 100.\<close>

definition demo_setup :: "int \<Rightarrow> digest command list" where
  "demo_setup v =
     [CreateWallet ''w1'' ''pub1'' ''key1'',
      CreateWallet ''w2'' ''pub2'' ''key2'',
      IssueToken (env_at ''t1'') v ''w1'',
      IssueVoucher (env_at ''v1'') ''authority-signature'' ''w1'' 100]"

definition sys_demo :: "int \<Rightarrow> digest system" where
  "sys_demo v = run Digest (demo_setup v) empty_system"

text \<open>Scenario A and B: the first wallet sends its token to the second, with no voucher.\<close>

definition transfer_demo :: "int \<Rightarrow> (error + digest Transaction) \<times> digest system" where
  "transfer_demo v =
     execute_transfer Digest (env_at ''tx-1'') ''w1'' ''w2'' ''t1'' None (sys_demo v)"

section \<open>Invariants of the reachable states\<close>

text \<open>
  Ownership: a wallet's token list has no duplicate, and every token in it is a token of
  the token manager whose owner is that wallet; no wallet has the empty id.
\<close>

definition own_ok :: "'sig system \<Rightarrow> bool" where
  "own_ok s = (\<forall>w wal. wallets s w = Some wal \<longrightarrow>
      w \<noteq> [] \<and> distinct (token_balance wal) \<and>
      (\<forall>t \<in> set (token_balance wal). \<exists>tok. tokens s t = Some tok \<and> owner_wallet_id tok = w))"

text \<open>What the ownership invariant reads: the token lists of the wallets, and the tokens.\<close>

definition token_view ::
  "'sig system \<Rightarrow> (string \<Rightarrow> string list option) \<times> (string \<rightharpoonup> Token)" where
  "token_view s = (\<lambda>w. map_option token_balance (wallets s w), tokens s)"

text \<open>
  Vouchers: every voucher was issued to an existing wallet, and a wallet's voucher count is
  the number of unused vouchers issued to it.
\<close>

definition unused_of :: "'sig system \<Rightarrow> string \<Rightarrow> string set" where
  "unused_of s w = {k. \<exists>v. vouchers s k = Some v \<and> issued_to_wallet_id v = w \<and> \<not> is_used v}"

definition vouch_ok :: "'sig system \<Rightarrow> bool" where
  "vouch_ok s =
     (finite (dom (vouchers s)) \<and>
      (\<forall>k v. vouchers s k = Some v \<longrightarrow> issued_to_wallet_id v \<in> dom (wallets s)) \<and>
      (\<forall>w wal. wallets s w = Some wal \<longrightarrow> voucher_balance wal = int (card (unused_of s w))))"

definition voucher_view ::
  "'sig system \<Rightarrow> (string \<Rightarrow> int option) \<times> (string \<rightharpoonup> Voucher)" where
  "voucher_view s = (\<lambda>w. map_option voucher_balance (wallets s w), vouchers s)"

text \<open>The transaction store holds completed transactions only.\<close>

definition tx_ok :: "'sig system \<Rightarrow> bool" where
  "tx_ok s = (\<forall>p \<in> set (transactions s). status (snd p) = COMPLETED)"

text \<open>Every ledger entry is stored under an id below the counter.\<close>

definition ledger_ok :: "'sig system \<Rightarrow> bool" where
  "ledger_ok s = (\<forall>p \<in> set (entries s). fst p < entry_counter s)"

text \<open>The parties of an offline transaction are wallets, and it carries its creation time.\<close>

definition off_ok :: "'sig system \<Rightarrow> bool" where
  "off_ok s =
     (\<forall>k otx. offline_transactions s k = Some otx \<longrightarrow>
        off_sender_wallet_id otx \<in> dom (wallets s) \<and>
        off_receiver_wallet_id otx \<in> dom (wallets s) \<and>
        truthy (created_timestamp otx))"

text \<open>
  Scenario D: an offline transfer of the token from the first wallet to the second, with
  or without the voucher, signed by both wallets with the signatures the wallets compute
  over the payload of the offline transaction.
\<close>

definition offline_demo_tx :: "int \<Rightarrow> string option \<Rightarrow> digest OfflineTransaction" where
  "offline_demo_tx v vid =
     \<lparr> offline_id = ''off-1'', off_sender_wallet_id = ''w1'', off_receiver_wallet_id = ''w2'',
       off_token_id = ''t1'', off_value = v, sender_signature = None,
       receiver_signature = None, off_status = OFF_PENDING,
       created_timestamp = Some ''2025-01-01T00:00:00'', synced_timestamp = None,
       off_voucher_id = vid, off_is_anonymous = truthy vid \<rparr>"

definition demo_signature :: "int \<Rightarrow> string option \<Rightarrow> string \<Rightarrow> digest" where
  "demo_signature v vid key = Digest (offline_payload (offline_demo_tx v vid)) key"

definition offline_setup :: "int \<Rightarrow> string option \<Rightarrow> digest command list" where
  "offline_setup v vid =
     demo_setup v @
     [CreateOffline (env_at ''off-1'') ''w1'' ''w2'' ''t1'' vid,
      SignOffline ''off-1'' ''w1'' (demo_signature v vid ''key1''),
      SignOffline ''off-1'' ''w2'' (demo_signature v vid ''key2'')]"

definition sys_signed :: "int \<Rightarrow> string option \<Rightarrow> digest system" where
  "sys_signed v vid = run Digest (offline_setup v vid) empty_system"

definition env_sync :: env where
  "env_sync = \<lparr> uuid4 = ''unused'', now = ''2025-01-02T00:00:00'' \<rparr>"

definition sys_synced :: "int \<Rightarrow> string option \<Rightarrow> digest system" where
  "sys_synced v vid = snd (sync_with_ledger env_sync ''off-1'' (sys_signed v vid))"

section \<open>Unfolding the operations\<close>

lemmas op_defs = create_wallet_def issue_token_def issue_voucher_def transfer_token_def
  redeem_voucher_def with_wallet_def get_wallet_def get_token_def get_voucher_def
  wallet_exists_def add_token_def remove_token_def add_voucher_def use_voucher_def
  transfer_ownership_def can_be_used_for_value_def mark_as_used_def

lemmas demo_defs = sys_demo_def demo_setup_def empty_system_def env_at_def tx_demo_def
  token_demo_def

lemma check_suspicious_patterns_False [simp]: "check_suspicious_patterns tx tok = False"
  by (simp add: check_suspicious_patterns_def get_recent_transactions_def)

section \<open>Compliance scoring\<close>

text \<open>
  C5. For every transaction and token given to \<open>check_transaction\<close>: a risk score of at
  least 0.5 gives the status flagged, approval (the transfer proceeds) and exactly one
  new AML entry, for this transaction and with this score, at the end of the registry;
  a risk score below 0.5 gives the status approved and changes nothing, so no AML entry
  is appended. A non-anonymous transfer of a token of value 50 has risk score 0.3, is
  approved and adds no AML entry.
\<close>

theorem compliance_thresholds:
  "(0.5 \<le> cr_risk_score (fst (check_transaction e tx tok s)) \<longrightarrow>
      cr_status (fst (check_transaction e tx tok s)) = FLAGGED \<and>
      is_approved (fst (check_transaction e tx tok s)) \<and>
      (\<exists>a. aml_registry (snd (check_transaction e tx tok s)) = aml_registry s @ [a] \<and>
           aml_transaction_id a = transaction_id tx \<and>
           aml_risk_score a = cr_risk_score (fst (check_transaction e tx tok s)))) \<and>
   (cr_risk_score (fst (check_transaction e tx tok s)) < 0.5 \<longrightarrow>
      cr_status (fst (check_transaction e tx tok s)) = APPROVED \<and>
      is_approved (fst (check_transaction e tx tok s)) \<and>
      snd (check_transaction e tx tok s) = s) \<and>
   (\<not> is_anonymous tx \<and> token_value tok = 50 \<longrightarrow>
      cr_risk_score (fst (check_transaction e tx tok s)) = 0.3 \<and>
      cr_status (fst (check_transaction e tx tok s)) = APPROVED \<and>
      aml_registry (snd (check_transaction e tx tok s)) = aml_registry s)"
  by (simp add: check_transaction_def Let_def create_aml_entry_def high_value_threshold_def
        escalate_to_authority_def)

theorem compliance_thresholds_witness:
  "0.5 \<le> cr_risk_score (fst (check_transaction (env_at ''tx-1'') tx_demo (token_demo 150) (sys_demo 150))) \<and>
   cr_status (fst (check_transaction (env_at ''tx-1'') tx_demo (token_demo 150) (sys_demo 150))) = FLAGGED \<and>
   length (aml_registry (snd (check_transaction (env_at ''tx-1'') tx_demo (token_demo 150) (sys_demo 150))))
     = length (aml_registry (sys_demo 150)) + 1 \<and>
   \<not> is_anonymous tx_demo \<and> token_value (token_demo 50) = 50 \<and>
   cr_risk_score (fst (check_transaction (env_at ''tx-1'') tx_demo (token_demo 50) (sys_demo 50))) < 0.5 \<and>
   cr_risk_score (fst (check_transaction (env_at ''tx-1'') tx_demo (token_demo 50) (sys_demo 50))) = 0.3 \<and>
   cr_status (fst (check_transaction (env_at ''tx-1'') tx_demo (token_demo 50) (sys_demo 50))) = APPROVED \<and>
   aml_registry (snd (check_transaction (env_at ''tx-1'') tx_demo (token_demo 50) (sys_demo 50)))
     = aml_registry (sys_demo 50)"
proof -
  have hi: "0.5 \<le> cr_risk_score (fst (check_transaction (env_at ''tx-1'') tx_demo (token_demo 150) (sys_demo 150)))"
    by (simp add: check_transaction_def Let_def high_value_threshold_def tx_demo_def token_demo_def)
  have lo: "\<not> is_anonymous tx_demo \<and> token_value (token_demo 50) = 50"
    by (simp add: tx_demo_def token_demo_def)
  from compliance_thresholds [of "env_at ''tx-1''" tx_demo "token_demo 150" "sys_demo 150"] hi
       compliance_thresholds [of "env_at ''tx-1''" tx_demo "token_demo 50" "sys_demo 50"] lo
  show ?thesis by auto
qed

text \<open>
  C6. For every transaction and token scored with a risk of at least 0.8, the result
  requires escalation and the AML entry appended by the same call is escalated and has
  the authority notified. A non-anonymous transfer of a token of value 150 has risk score
  0.7 + 0.3 = 1.0, is flagged, requires escalation, and adds one AML entry, escalated.
\<close>

theorem escalation:
  "(0.8 \<le> cr_risk_score (fst (check_transaction e tx tok s)) \<longrightarrow>
      requires_escalation (fst (check_transaction e tx tok s)) \<and>
      cr_status (fst (check_transaction e tx tok s)) = FLAGGED \<and>
      (\<exists>a. aml_registry (snd (check_transaction e tx tok s)) = aml_registry s @ [a] \<and>
           aml_transaction_id a = transaction_id tx \<and> escalated a \<and> authority_notified a)) \<and>
   (\<not> is_anonymous tx \<and> token_value tok = 150 \<longrightarrow>
      cr_risk_score (fst (check_transaction e tx tok s)) = 0.7 + 0.3 \<and>
      cr_risk_score (fst (check_transaction e tx tok s)) = 1 \<and>
      cr_status (fst (check_transaction e tx tok s)) = FLAGGED \<and>
      requires_escalation (fst (check_transaction e tx tok s)) \<and>
      (\<exists>a. aml_registry (snd (check_transaction e tx tok s)) = aml_registry s @ [a] \<and>
           aml_amount a = 150 \<and> aml_risk_score a = 1 \<and> escalated a \<and> authority_notified a))"
  by (simp add: check_transaction_def Let_def create_aml_entry_def high_value_threshold_def
        escalate_to_authority_def)

theorem escalation_witness:
  "\<not> is_anonymous tx_demo \<and> token_value (token_demo 150) = 150 \<and>
   0.8 \<le> cr_risk_score (fst (check_transaction (env_at ''tx-1'') tx_demo (token_demo 150) (sys_demo 150))) \<and>
   requires_escalation (fst (check_transaction (env_at ''tx-1'') tx_demo (token_demo 150) (sys_demo 150))) \<and>
   map escalated (aml_registry (snd (check_transaction (env_at ''tx-1'') tx_demo (token_demo 150) (sys_demo 150))))
     = map escalated (aml_registry (sys_demo 150)) @ [True]"
proof -
  have h: "\<not> is_anonymous tx_demo \<and> token_value (token_demo 150) = 150"
    by (simp add: tx_demo_def token_demo_def)
  from escalation [of "env_at ''tx-1''" tx_demo "token_demo 150" "sys_demo 150"] h
  show ?thesis by auto
qed

section \<open>Signature re-verification\<close>

lemmas engine_defs = execute_transfer_def execute_body_def check_voucher_def
  check_transaction_def create_aml_entry_def escalate_to_authority_def
  high_value_threshold_def store_transaction_def sign_transaction_def

lemma map_of_dict_set_same [simp]: "map_of (dict_set k v xs) k = Some v"
  by (induction xs) auto

lemma map_of_dict_set_other [simp]: "k' \<noteq> k \<Longrightarrow> map_of (dict_set k v xs) k' = map_of xs k'"
  by (induction xs) auto

lemma store_transaction_fields [simp]:
  "wallets (snd (store_transaction e tx s)) = wallets s"
  "tokens (snd (store_transaction e tx s)) = tokens s"
  "vouchers (snd (store_transaction e tx s)) = vouchers s"
  "aml_registry (snd (store_transaction e tx s)) = aml_registry s"
  "authority_contacted (snd (store_transaction e tx s)) = authority_contacted s"
  "transactions (snd (store_transaction e tx s)) = transactions s"
  "offline_transactions (snd (store_transaction e tx s)) = offline_transactions s"
  "entry_counter (snd (store_transaction e tx s)) = entry_counter s + 1"
  by (simp_all add: store_transaction_def Let_def)

text \<open>
  What a successful \<open>execute_transfer\<close> returns: the stored, completed transaction. Its
  signature is the sender's digest of the dictionary of the transaction as it was when
  it was signed: status pending, and the key \<open>signature\<close> present with value \<open>None\<close>.
\<close>

lemma execute_body_Inr:
  assumes "execute_body D e tx tok s = (Inr tx', s')"
  shows "transaction_id tx' = transaction_id tx \<and> sender_wallet_id tx' = sender_wallet_id tx \<and>
         status tx' = COMPLETED \<and>
         get_transaction s' (transaction_id tx) = Some tx' \<and>
         tx'\<lparr>status := status tx, signature := signature tx\<rparr> = tx \<and>
         (case wallets s' (sender_wallet_id tx) of
            None \<Rightarrow> signature tx' = signature tx
          | Some w \<Rightarrow> signature tx' = Some (D (to_dict tx) (private_key w)))"
  using assms
  by (auto simp: execute_body_def Let_def get_transaction_def get_wallet_def sign_transaction_def
      split: if_splits option.splits)

lemma execute_transfer_Inr:
  assumes "execute_transfer D e sender receiver tid vid s = (Inr tx, s')"
  shows "transaction_id tx = uuid4 e \<and> sender_wallet_id tx = sender \<and> status tx = COMPLETED \<and>
         get_transaction s' (uuid4 e) = Some tx \<and>
         (case wallets s' sender of
            None \<Rightarrow> signature tx = None
          | Some w \<Rightarrow> signature tx =
              Some (D (to_dict (tx\<lparr>status := PENDING, signature := None\<rparr>)) (private_key w)))"
  using assms
  by (auto simp: execute_transfer_def Let_def split: if_splits option.splits sum.splits
      dest!: execute_body_Inr)

lemma collision_free_Digest: "collision_free Digest"
  by (simp add: collision_free_def)

lemma transfer_demo_ok: "\<exists>tx. fst (transfer_demo 50) = Inr tx"
  by (simp add: transfer_demo_def demo_defs op_defs engine_defs Let_def)

text \<open>
  C2 (what the code does). The claim is that \<open>verify_transaction_signature\<close> returns
  true for every transfer that \<open>execute_transfer\<close> completed. It returns false for every
  one of them, whenever the digest has no collision: the signature was computed over the
  dictionary with status pending and eleven keys, and is compared with the digest of the
  dictionary with status completed and the key \<open>signature\<close> removed.
\<close>

theorem signature_reverification_fails:
  assumes "collision_free D"
    and "execute_transfer D e sender receiver tid vid s = (Inr tx, s')"
  shows "status tx = COMPLETED \<and> get_transaction s' (transaction_id tx) = Some tx \<and>
         \<not> verify_transaction_signature D s' (transaction_id tx)"
proof -
  note r = execute_transfer_Inr [OF assms(2)]
  have len: "length (dict_pop ''signature'' (to_dict t)) \<noteq> length (to_dict t')"
    for t t' :: "'a Transaction"
    by (simp add: dict_pop_def to_dict_def)
  have neq: "D (to_dict t') k \<noteq> D (dict_pop ''signature'' (to_dict t)) k"
    for t t' :: "'a Transaction" and k
    using assms(1) len [of t t'] unfolding collision_free_def by metis
  show ?thesis
    using r neq
    by (auto simp: verify_transaction_signature_def verify_signature_def
        get_wallet_def split: option.splits)
qed

theorem signature_reverification_fails_witness:
  "collision_free Digest \<and>
   (\<exists>tx. fst (transfer_demo 50) = Inr tx \<and> status tx = COMPLETED \<and> transaction_id tx = ''tx-1'') \<and>
   \<not> verify_transaction_signature Digest (snd (transfer_demo 50)) ''tx-1''"
proof -
  obtain tx where tx: "fst (transfer_demo 50) = Inr tx"
    using transfer_demo_ok by blast
  then have run: "execute_transfer Digest (env_at ''tx-1'') ''w1'' ''w2'' ''t1'' None (sys_demo 50)
      = (Inr tx, snd (transfer_demo 50))"
    by (simp add: transfer_demo_def prod_eq_iff)
  have id: "transaction_id tx = ''tx-1''"
    using execute_transfer_Inr [OF run] by (simp add: env_at_def)
  from signature_reverification_fails [OF collision_free_Digest run] tx id collision_free_Digest
  show ?thesis by auto
qed

section \<open>What each operation leaves unchanged\<close>

lemma transfer_token_False: "transfer_token tid a b s = (False, s') \<Longrightarrow> s' = s"
  by (auto simp: transfer_token_def Let_def split: option.splits if_splits)

lemma transfer_token_True:
  assumes "transfer_token tid a b s = (True, s')"
  shows "\<exists>tok wa wb. tokens s tid = Some tok \<and> owner_wallet_id tok = a \<and>
           wallets s a = Some wa \<and> wallets s b = Some wb \<and>
           s' = s\<lparr>wallets := (wallets s)(a \<mapsto> snd (remove_token tid wa),
                    b \<mapsto> add_token tid (if a = b then snd (remove_token tid wa) else wb)),
                  tokens := (tokens s)(tid \<mapsto> snd (transfer_ownership b tok))\<rparr>"
  using assms
  by (auto simp: transfer_token_def with_wallet_def get_wallet_def get_token_def
      wallet_exists_def Let_def split: option.splits if_splits)

lemma transfer_token_frame [simp]:
  "voucher_view (snd (transfer_token tid a b s)) = voucher_view s"
  "dom (wallets (snd (transfer_token tid a b s))) = dom (wallets s)"
  "vouchers (snd (transfer_token tid a b s)) = vouchers s"
  "aml_registry (snd (transfer_token tid a b s)) = aml_registry s"
  "authority_contacted (snd (transfer_token tid a b s)) = authority_contacted s"
  "entries (snd (transfer_token tid a b s)) = entries s"
  "entry_counter (snd (transfer_token tid a b s)) = entry_counter s"
  "transactions (snd (transfer_token tid a b s)) = transactions s"
  "offline_transactions (snd (transfer_token tid a b s)) = offline_transactions s"
  by (auto simp: transfer_token_def with_wallet_def get_wallet_def get_token_def
      wallet_exists_def voucher_view_def remove_token_def add_token_def Let_def fun_eq_iff
      split: option.splits if_splits)

lemma redeem_voucher_False: "redeem_voucher vid txid x s = (False, s') \<Longrightarrow> s' = s"
  by (auto simp: redeem_voucher_def Let_def split: option.splits if_splits)

lemma redeem_voucher_frame [simp]:
  "token_view (snd (redeem_voucher vid txid x s)) = token_view s"
  "dom (wallets (snd (redeem_voucher vid txid x s))) = dom (wallets s)"
  "tokens (snd (redeem_voucher vid txid x s)) = tokens s"
  "aml_registry (snd (redeem_voucher vid txid x s)) = aml_registry s"
  "authority_contacted (snd (redeem_voucher vid txid x s)) = authority_contacted s"
  "entries (snd (redeem_voucher vid txid x s)) = entries s"
  "entry_counter (snd (redeem_voucher vid txid x s)) = entry_counter s"
  "transactions (snd (redeem_voucher vid txid x s)) = transactions s"
  "offline_transactions (snd (redeem_voucher vid txid x s)) = offline_transactions s"
  by (auto simp: redeem_voucher_def with_wallet_def get_wallet_def get_voucher_def
      token_view_def use_voucher_def mark_as_used_def Let_def fun_eq_iff
      split: option.splits if_splits)

lemma check_transaction_frame [simp]:
  "wallets (snd (check_transaction e tx tok s)) = wallets s"
  "tokens (snd (check_transaction e tx tok s)) = tokens s"
  "vouchers (snd (check_transaction e tx tok s)) = vouchers s"
  "entries (snd (check_transaction e tx tok s)) = entries s"
  "entry_counter (snd (check_transaction e tx tok s)) = entry_counter s"
  "transactions (snd (check_transaction e tx tok s)) = transactions s"
  "offline_transactions (snd (check_transaction e tx tok s)) = offline_transactions s"
  by (simp_all add: check_transaction_def create_aml_entry_def Let_def)

lemma set_offline_frame [simp]:
  "wallets (set_offline oid otx s) = wallets s"
  "tokens (set_offline oid otx s) = tokens s"
  "vouchers (set_offline oid otx s) = vouchers s"
  "aml_registry (set_offline oid otx s) = aml_registry s"
  "authority_contacted (set_offline oid otx s) = authority_contacted s"
  "entries (set_offline oid otx s) = entries s"
  "entry_counter (set_offline oid otx s) = entry_counter s"
  "transactions (set_offline oid otx s) = transactions s"
  "offline_transactions (set_offline oid otx s) = (offline_transactions s)(oid \<mapsto> otx)"
  by (simp_all add: set_offline_def)

lemma create_wallet_Inr:
  "create_wallet wid pub priv s = Inr r \<Longrightarrow>
     wid \<noteq> [] \<and>
     snd r = s\<lparr>wallets := (wallets s)(wid \<mapsto> \<lparr> wallet_id = wid, public_key = pub,
        private_key = priv, token_balance = [], voucher_balance = 0 \<rparr>)\<rparr>"
  by (auto simp: create_wallet_def Let_def split: if_splits)

lemma issue_token_Inr:
  "issue_token e v owner s = Inr r \<Longrightarrow>
     \<exists>wal. wallets s owner = Some wal \<and> 0 < v \<and>
       snd r = s\<lparr>tokens := (tokens s)(uuid4 e \<mapsto> \<lparr> token_id = uuid4 e, token_value = v,
                     owner_wallet_id = owner, issued_by = ''ECB'', issue_timestamp = None \<rparr>),
                 wallets := (wallets s)(owner \<mapsto> add_token (uuid4 e) wal)\<rparr>"
  by (auto simp: issue_token_def with_wallet_def get_wallet_def wallet_exists_def Let_def
      split: if_splits)

lemma issue_voucher_Inr:
  "issue_voucher e g wid limit s = Inr r \<Longrightarrow>
     \<exists>wal. wallets s wid = Some wal \<and> 0 < limit \<and>
       snd r = s\<lparr>vouchers := (vouchers s)(uuid4 e \<mapsto> fst r),
                 wallets := (wallets s)(wid \<mapsto> add_voucher 1 wal)\<rparr> \<and>
       issued_to_wallet_id (fst r) = wid \<and> \<not> is_used (fst r) \<and> value_limit (fst r) = limit"
  by (auto simp: issue_voucher_def with_wallet_def get_wallet_def wallet_exists_def Let_def
      split: if_splits)

lemma create_offline_Inr:
  "create_offline_transaction e a b tid vid s = Inr r \<Longrightarrow>
     a \<in> dom (wallets s) \<and> b \<in> dom (wallets s) \<and> a \<noteq> b \<and>
     off_sender_wallet_id (fst r) = a \<and> off_receiver_wallet_id (fst r) = b \<and>
     off_status (fst r) = OFF_PENDING \<and> created_timestamp (fst r) = Some (now e) \<and>
     snd r = s\<lparr>offline_transactions := (offline_transactions s)(uuid4 e \<mapsto> fst r)\<rparr>"
  by (auto simp: create_offline_transaction_def wallet_exists_def Let_def
      split: if_splits option.splits sum.splits)

lemma load_entries_frame [simp]:
  "wallets (load_entries ens s) = wallets s"
  "tokens (load_entries ens s) = tokens s"
  "vouchers (load_entries ens s) = vouchers s"
  "transactions (load_entries ens s) = transactions s"
  "offline_transactions (load_entries ens s) = offline_transactions s"
  by (induction ens arbitrary: s) simp_all

lemma load_ledger_frame [simp]:
  "wallets (load_ledger file s) = wallets s"
  "tokens (load_ledger file s) = tokens s"
  "vouchers (load_ledger file s) = vouchers s"
  "transactions (load_ledger file s) = transactions s"
  "offline_transactions (load_ledger file s) = offline_transactions s"
  by (simp_all add: load_ledger_def split: option.splits)

section \<open>Ownership is an invariant\<close>

lemma own_okD:
  assumes "own_ok s" "wallets s w = Some wal"
  shows "w \<noteq> []" "distinct (token_balance wal)"
    "t \<in> set (token_balance wal) \<Longrightarrow> \<exists>tok. tokens s t = Some tok \<and> owner_wallet_id tok = w"
  using assms unfolding own_ok_def by blast+

lemma own_ok_view:
  "own_ok s = (\<forall>w b. fst (token_view s) w = Some b \<longrightarrow>
      w \<noteq> [] \<and> distinct b \<and>
      (\<forall>t \<in> set b. \<exists>tok. snd (token_view s) t = Some tok \<and> owner_wallet_id tok = w))"
  by (auto simp: own_ok_def token_view_def)

lemma own_ok_cong: "token_view s' = token_view s \<Longrightarrow> own_ok s' = own_ok s"
  unfolding own_ok_view by simp

lemma token_view_frame [simp]:
  "token_view (snd (check_transaction e tx tok s)) = token_view s"
  "token_view (snd (store_transaction e tx s)) = token_view s"
  "token_view (set_offline oid otx s) = token_view s"
  "token_view (s\<lparr>transactions := ts\<rparr>) = token_view s"
  "token_view (s\<lparr>offline_transactions := os\<rparr>) = token_view s"
  by (simp_all add: token_view_def)

lemma own_ok_frame [simp]:
  "own_ok (snd (redeem_voucher vid txid x s)) = own_ok s"
  "own_ok (snd (check_transaction e tx tok s)) = own_ok s"
  "own_ok (snd (store_transaction e tx s)) = own_ok s"
  "own_ok (set_offline oid otx s) = own_ok s"
  "own_ok (s\<lparr>transactions := ts\<rparr>) = own_ok s"
  "own_ok (s\<lparr>offline_transactions := os\<rparr>) = own_ok s"
  by (rule own_ok_cong, simp)+

lemma own_ok_create_wallet:
  assumes "own_ok s" "create_wallet wid pub priv s = Inr r"
  shows "own_ok (snd r)"
proof -
  note r = create_wallet_Inr [OF assms(2)]
  show ?thesis
    using r own_okD [OF assms(1)] by (auto simp: own_ok_def split: if_splits)
qed

lemma own_ok_issue_token:
  assumes "own_ok s" "uuid4 e \<notin> dom (tokens s)" "issue_token e v owner s = Inr r"
  shows "own_ok (snd r)"
proof -
  from issue_token_Inr [OF assms(3)] obtain wal where wal: "wallets s owner = Some wal"
    and r: "snd r = s\<lparr>tokens := (tokens s)(uuid4 e \<mapsto> \<lparr> token_id = uuid4 e, token_value = v,
                     owner_wallet_id = owner, issued_by = ''ECB'', issue_timestamp = None \<rparr>),
                 wallets := (wallets s)(owner \<mapsto> add_token (uuid4 e) wal)\<rparr>"
    by blast
  have fresh: "uuid4 e \<notin> set (token_balance w')" if "wallets s x = Some w'" for x w'
    using own_okD(3) [OF assms(1) that] assms(2) by blast
  show ?thesis
    unfolding own_ok_def r
    using own_okD [OF assms(1)] wal fresh
    by (auto simp: add_token_def split: if_splits)
qed

lemma own_ok_issue_voucher:
  assumes "own_ok s" "issue_voucher e g wid limit s = Inr r"
  shows "own_ok (snd r)"
proof -
  from issue_voucher_Inr [OF assms(2)] have "token_view (snd r) = token_view s"
    by (auto simp: token_view_def add_voucher_def fun_eq_iff)
  from own_ok_cong [OF this] assms(1) show ?thesis by simp
qed

lemma own_ok_transfer_token:
  assumes "own_ok s"
  shows "own_ok (snd (transfer_token tid a b s))"
proof (cases "fst (transfer_token tid a b s)")
  case False
  then have "transfer_token tid a b s = (False, snd (transfer_token tid a b s))"
    by (simp add: prod_eq_iff)
  from transfer_token_False [OF this] assms show ?thesis by simp
next
  case True
  then have "transfer_token tid a b s = (True, snd (transfer_token tid a b s))"
    by (simp add: prod_eq_iff)
  from transfer_token_True [OF this] obtain tok wa wb where
    tok: "tokens s tid = Some tok" "owner_wallet_id tok = a"
    and wa: "wallets s a = Some wa" and wb: "wallets s b = Some wb"
    and s': "snd (transfer_token tid a b s) =
       s\<lparr>wallets := (wallets s)(a \<mapsto> snd (remove_token tid wa),
                    b \<mapsto> add_token tid (if a = b then snd (remove_token tid wa) else wb)),
          tokens := (tokens s)(tid \<mapsto> snd (transfer_ownership b tok))\<rparr>"
    by blast
  have b: "b \<noteq> []" using own_okD(1) [OF assms wb] .
  have other: "tid \<notin> set (token_balance w')" if "wallets s x = Some w'" "x \<noteq> a" for x w'
    using own_okD(3) [OF assms that(1), of tid] tok that(2) by auto
  show ?thesis
    unfolding own_ok_def s'
    using b tok wa wb other own_okD [OF assms]
    by (auto simp: remove_token_def add_token_def transfer_ownership_def split: if_splits
        dest: notin_set_remove1)
qed

lemma own_ok_execute_transfer:
  "own_ok s \<Longrightarrow> own_ok (snd (execute_transfer D e a b tid vid s))"
  by (simp add: execute_transfer_def execute_body_def Let_def own_ok_transfer_token
      split: option.splits sum.splits)

lemma own_ok_sign_offline:
  "own_ok s \<Longrightarrow> own_ok (snd (sign_offline_transaction D oid wid g s))"
  by (simp add: sign_offline_transaction_def Let_def split: option.splits)

lemma own_ok_sync:
  "own_ok s \<Longrightarrow> own_ok (snd (sync_with_ledger e oid s))"
  by (simp add: sync_with_ledger_def Let_def own_ok_transfer_token split: option.splits)

lemma own_ok_exec: "own_ok s \<Longrightarrow> admissible c s \<Longrightarrow> own_ok (exec D c s)"
proof (cases c)
  case (CreateOffline e a b tid vid)
  assume "own_ok s"
  then show ?thesis
    using CreateOffline by (auto split: sum.splits dest!: create_offline_Inr)
qed (auto split: sum.splits
      simp: own_ok_create_wallet own_ok_issue_token own_ok_issue_voucher own_ok_transfer_token
        own_ok_execute_transfer own_ok_sign_offline own_ok_sync)

lemma reachable_own_ok: "reachable D s \<Longrightarrow> own_ok s"
proof (induction rule: reachable.induct)
  case (initial ledger_file)
  show ?case by (simp add: own_ok_def empty_system_def)
next
  case (step s c)
  then show ?case by (simp add: own_ok_exec)
qed

section \<open>Ownership uniqueness\<close>

lemma reachable_run:
  "reachable D s \<Longrightarrow> run_admissible D cs s \<Longrightarrow> reachable D (run D cs s)"
proof (induction cs arbitrary: s)
  case Nil
  then show ?case by simp
next
  case (Cons c cs)
  from Cons.prems have "reachable D (exec D c s)" "run_admissible D cs (exec D c s)"
    by (auto intro: reachable.step)
  then show ?case using Cons.IH by simp
qed

lemma reachable_empty: "reachable D empty_system"
  using reachable.initial [of D None] by (simp add: load_ledger_def)

lemma reachable_sys_demo: "0 < v \<Longrightarrow> reachable Digest (sys_demo v)"
  unfolding sys_demo_def
  by (rule reachable_run [OF reachable_empty])
     (simp add: demo_setup_def empty_system_def env_at_def op_defs Let_def)

text \<open>
  C3 (amended). In every reachable state each token id is in the token list of at most one
  wallet, and that wallet is the owner recorded in the token. After a successful
  \<open>transfer_token\<close> from a wallet to a different wallet, the token id is absent from the
  sender's list, present in the receiver's list, and the token's owner is the receiver.
\<close>

theorem ownership_uniqueness:
  assumes "reachable D s"
  shows "(\<forall>w1 w2 wal1 wal2 t.
            wallets s w1 = Some wal1 \<and> wallets s w2 = Some wal2 \<and>
            t \<in> set (token_balance wal1) \<and> t \<in> set (token_balance wal2) \<longrightarrow> w1 = w2) \<and>
         (\<forall>w wal t. wallets s w = Some wal \<and> t \<in> set (token_balance wal) \<longrightarrow>
            (\<exists>tok. tokens s t = Some tok \<and> owner_wallet_id tok = w)) \<and>
         (transfer_token tid a b s = (True, s') \<and> a \<noteq> b \<longrightarrow>
            (\<exists>wa wb tok. wallets s' a = Some wa \<and> tid \<notin> set (token_balance wa) \<and>
               wallets s' b = Some wb \<and> tid \<in> set (token_balance wb) \<and>
               tokens s' tid = Some tok \<and> owner_wallet_id tok = b))"
proof (intro conjI allI impI)
  note ok = reachable_own_ok [OF assms]
  fix w1 w2 wal1 wal2 t
  assume h: "wallets s w1 = Some wal1 \<and> wallets s w2 = Some wal2 \<and>
             t \<in> set (token_balance wal1) \<and> t \<in> set (token_balance wal2)"
  from own_okD(3) [OF ok, of w1 wal1 t] own_okD(3) [OF ok, of w2 wal2 t] h
  show "w1 = w2" by auto
next
  fix w wal t
  assume "wallets s w = Some wal \<and> t \<in> set (token_balance wal)"
  with own_okD(3) [OF reachable_own_ok [OF assms], of w wal t]
  show "\<exists>tok. tokens s t = Some tok \<and> owner_wallet_id tok = w" by simp
next
  note ok = reachable_own_ok [OF assms]
  assume h: "transfer_token tid a b s = (True, s') \<and> a \<noteq> b"
  then have ab: "a \<noteq> b" by simp
  from h transfer_token_True [of tid a b s s'] obtain tok wa wb where
    tok: "tokens s tid = Some tok" "owner_wallet_id tok = a"
    and wa: "wallets s a = Some wa" and wb: "wallets s b = Some wb"
    and s': "s' = s\<lparr>wallets := (wallets s)(a \<mapsto> snd (remove_token tid wa),
                    b \<mapsto> add_token tid (if a = b then snd (remove_token tid wa) else wb)),
                  tokens := (tokens s)(tid \<mapsto> snd (transfer_ownership b tok))\<rparr>"
    by blast
  have b: "b \<noteq> []" using own_okD(1) [OF ok wb] .
  have d: "distinct (token_balance wa)" using own_okD(2) [OF ok wa] .
  show "\<exists>wa wb tok. wallets s' a = Some wa \<and> tid \<notin> set (token_balance wa) \<and>
               wallets s' b = Some wb \<and> tid \<in> set (token_balance wb) \<and>
               tokens s' tid = Some tok \<and> owner_wallet_id tok = b"
    using ab b d
    by (simp add: s' remove_token_def add_token_def transfer_ownership_def)
qed

theorem ownership_uniqueness_witness:
  "reachable Digest (sys_demo 50) \<and>
   fst (transfer_token ''t1'' ''w1'' ''w2'' (sys_demo 50)) \<and> ''w1'' \<noteq> ''w2'' \<and>
   map_option token_balance
     (wallets (snd (transfer_token ''t1'' ''w1'' ''w2'' (sys_demo 50))) ''w1'') = Some [] \<and>
   map_option token_balance
     (wallets (snd (transfer_token ''t1'' ''w1'' ''w2'' (sys_demo 50))) ''w2'') = Some [''t1''] \<and>
   map_option owner_wallet_id
     (tokens (snd (transfer_token ''t1'' ''w1'' ''w2'' (sys_demo 50))) ''t1'') = Some ''w2''"
proof -
  have r: "reachable Digest (sys_demo 50)" by (rule reachable_sys_demo) simp
  have ok: "fst (transfer_token ''t1'' ''w1'' ''w2'' (sys_demo 50))"
    by (simp add: demo_defs op_defs Let_def)
  then have eq: "transfer_token ''t1'' ''w1'' ''w2'' (sys_demo 50)
      = (True, snd (transfer_token ''t1'' ''w1'' ''w2'' (sys_demo 50)))"
    by (simp add: prod_eq_iff)
  have bal: "map_option token_balance
     (wallets (snd (transfer_token ''t1'' ''w1'' ''w2'' (sys_demo 50))) ''w1'') = Some []"
    "map_option token_balance
     (wallets (snd (transfer_token ''t1'' ''w1'' ''w2'' (sys_demo 50))) ''w2'') = Some [''t1'']"
    by (simp_all add: demo_defs op_defs Let_def)
  from ownership_uniqueness [OF r, of "''t1''" "''w1''" "''w2''"
      "snd (transfer_token ''t1'' ''w1'' ''w2'' (sys_demo 50))"] eq r ok bal
  show ?thesis by auto
qed

text \<open>
  The claim as stated, for every successful \<open>transfer_token\<close>, fails when sender and
  receiver are the same wallet: the call succeeds and the token stays in the sender's
  list. \<open>transfer_token\<close> does not compare the two wallets; \<open>execute_transfer\<close> and
  \<open>create_offline_transaction\<close> reject equal parties before they call it.
\<close>

theorem ownership_self_transfer_counterexample:
  "reachable Digest (sys_demo 50) \<and>
   fst (transfer_token ''t1'' ''w1'' ''w1'' (sys_demo 50)) \<and>
   map_option token_balance
     (wallets (snd (transfer_token ''t1'' ''w1'' ''w1'' (sys_demo 50))) ''w1'') = Some [''t1'']"
proof -
  have r: "reachable Digest (sys_demo 50)" by (rule reachable_sys_demo) simp
  then show ?thesis by (simp add: demo_defs op_defs Let_def)
qed

section \<open>Only completed transfers are stored\<close>

lemma set_dict_set: "set (dict_set k v xs) \<subseteq> insert (k, v) (set xs)"
  by (induction xs) auto

lemma fst_set_dict_set: "fst ` set (dict_set k v xs) = insert k (fst ` set xs)"
  by (induction xs) auto

lemma map_of_None_iff: "(map_of xs k = None) = (k \<notin> fst ` set xs)"
  by (simp add: map_of_eq_None_iff)

lemma execute_body_Inl:
  "execute_body D e tx tok s = (Inl err, s') \<Longrightarrow> transactions s' = transactions s"
  by (auto simp: execute_body_def Let_def split: if_splits)

lemma execute_transfer_Inl:
  "execute_transfer D e a b tid vid s = (Inl err, s') \<Longrightarrow> transactions s' = transactions s"
  by (auto simp: execute_transfer_def Let_def split: if_splits option.splits sum.splits
      dest!: execute_body_Inl)

lemma execute_body_transactions:
  "execute_body D e tx tok s = (Inr tx', s') \<Longrightarrow>
     transactions s' = dict_set (transaction_id tx) tx' (transactions s)"
  by (auto simp: execute_body_def Let_def split: if_splits)

lemma execute_transfer_transactions:
  "execute_transfer D e a b tid vid s = (Inr tx, s') \<Longrightarrow>
     transactions s' = dict_set (uuid4 e) tx (transactions s)"
  by (auto simp: execute_transfer_def Let_def split: if_splits option.splits sum.splits
      dest!: execute_body_transactions)

lemma tx_ok_execute_transfer:
  assumes "tx_ok s"
  shows "tx_ok (snd (execute_transfer D e a b tid vid s))"
proof (cases "fst (execute_transfer D e a b tid vid s)")
  case (Inl err)
  then have "execute_transfer D e a b tid vid s = (Inl err, snd (execute_transfer D e a b tid vid s))"
    by (simp add: prod_eq_iff)
  from execute_transfer_Inl [OF this] assms show ?thesis by (simp add: tx_ok_def)
next
  case (Inr tx)
  then have r: "execute_transfer D e a b tid vid s = (Inr tx, snd (execute_transfer D e a b tid vid s))"
    by (simp add: prod_eq_iff)
  from execute_transfer_Inr [OF r] have "status tx = COMPLETED" by simp
  with execute_transfer_transactions [OF r] assms set_dict_set [of "uuid4 e" tx "transactions s"]
  show ?thesis by (auto simp: tx_ok_def)
qed

lemma tx_ok_exec: "tx_ok s \<Longrightarrow> tx_ok (exec D c s)"
proof (cases c)
  case (ExecuteTransfer e a b tid vid)
  assume "tx_ok s"
  then show ?thesis using ExecuteTransfer by (simp add: tx_ok_execute_transfer)
qed (auto simp: tx_ok_def sign_offline_transaction_def sync_with_ledger_def Let_def
      split: sum.splits option.splits
      dest!: create_wallet_Inr issue_token_Inr issue_voucher_Inr create_offline_Inr)

lemma reachable_tx_ok: "reachable D s \<Longrightarrow> tx_ok s"
proof (induction rule: reachable.induct)
  case (initial ledger_file)
  show ?case by (simp add: tx_ok_def empty_system_def)
next
  case (step s c)
  then show ?case by (simp add: tx_ok_exec)
qed

lemma reachable_after_transfer: "0 < v \<Longrightarrow> reachable Digest (snd (transfer_demo v))"
proof -
  assume "0 < v"
  then have "reachable Digest (sys_demo v)" by (rule reachable_sys_demo)
  from reachable.step [OF this, of "ExecuteTransfer (env_at ''tx-1'') ''w1'' ''w2'' ''t1'' None"]
  show ?thesis
    by (simp add: transfer_demo_def) (simp add: demo_defs op_defs Let_def)
qed

text \<open>
  C10. In every reachable state every transaction in the transaction store is completed:
  so is every result of \<open>get_transaction\<close>, of the listing and of the queries by wallet,
  anonymous, non-anonymous and AML-flagged, and \<open>get_failed_transactions\<close> is empty. When
  \<open>execute_transfer\<close> raises, the store is unchanged, and \<open>get_transaction\<close> on the id
  drawn for the failed transaction (an id not in use) returns none.
\<close>

theorem only_completed_stored:
  assumes "reachable D s"
  shows "(\<forall>tx \<in> set (list_all_transactions s). status tx = COMPLETED) \<and>
         (\<forall>txid tx. get_transaction s txid = Some tx \<longrightarrow> status tx = COMPLETED) \<and>
         get_failed_transactions s = [] \<and>
         get_completed_transactions s = list_all_transactions s \<and>
         (\<forall>tx \<in> set (get_transactions_by_wallet s w). status tx = COMPLETED) \<and>
         (\<forall>tx \<in> set (get_anonymous_transactions s). status tx = COMPLETED) \<and>
         (\<forall>tx \<in> set (get_non_anonymous_transactions s). status tx = COMPLETED) \<and>
         (\<forall>tx \<in> set (get_aml_flagged_transactions s). status tx = COMPLETED) \<and>
         (execute_transfer D e a b tid vid s = (Inl err, s') \<longrightarrow>
            transactions s' = transactions s \<and>
            (uuid4 e \<notin> fst ` set (transactions s) \<longrightarrow> get_transaction s' (uuid4 e) = None))"
proof -
  from reachable_tx_ok [OF assms]
  have ok: "status tx = COMPLETED" if "tx \<in> snd ` set (transactions s)" for tx
    using that by (auto simp: tx_ok_def)
  have all: "\<forall>tx \<in> set (list_all_transactions s). status tx = COMPLETED"
    using ok by (simp add: list_all_transactions_def)
  have get: "\<forall>txid tx. get_transaction s txid = Some tx \<longrightarrow> status tx = COMPLETED"
    using ok by (force simp: get_transaction_def dest!: map_of_SomeD)
  have failed: "get_failed_transactions s = []"
    using ok by (auto simp: get_failed_transactions_def filter_empty_conv)
  have completed: "get_completed_transactions s = list_all_transactions s"
    using ok by (auto simp: get_completed_transactions_def list_all_transactions_def filter_id_conv)
  have queries:
    "\<forall>tx \<in> set (get_transactions_by_wallet s w). status tx = COMPLETED"
    "\<forall>tx \<in> set (get_anonymous_transactions s). status tx = COMPLETED"
    "\<forall>tx \<in> set (get_non_anonymous_transactions s). status tx = COMPLETED"
    "\<forall>tx \<in> set (get_aml_flagged_transactions s). status tx = COMPLETED"
    using ok
    by (auto simp: get_transactions_by_wallet_def get_anonymous_transactions_def
        get_non_anonymous_transactions_def get_aml_flagged_transactions_def)
  have raise: "execute_transfer D e a b tid vid s = (Inl err, s') \<longrightarrow>
            transactions s' = transactions s \<and>
            (uuid4 e \<notin> fst ` set (transactions s) \<longrightarrow> get_transaction s' (uuid4 e) = None)"
    by (auto simp: get_transaction_def map_of_None_iff dest!: execute_transfer_Inl)
  from all get failed completed queries raise show ?thesis by blast
qed

theorem only_completed_stored_witness:
  "reachable Digest (snd (transfer_demo 50)) \<and>
   map status (list_all_transactions (snd (transfer_demo 50))) = [COMPLETED] \<and>
   get_failed_transactions (snd (transfer_demo 50)) = [] \<and>
   fst (execute_transfer Digest (env_at ''tx-2'') ''w1'' ''w2'' ''t1'' None (snd (transfer_demo 50)))
     = Inl SenderDoesNotOwnToken \<and>
   ''tx-2'' \<notin> fst ` set (transactions (snd (transfer_demo 50))) \<and>
   get_transaction
     (snd (execute_transfer Digest (env_at ''tx-2'') ''w1'' ''w2'' ''t1'' None (snd (transfer_demo 50))))
     ''tx-2'' = None"
proof -
  have r: "reachable Digest (snd (transfer_demo 50))"
    by (rule reachable_after_transfer) simp
  have one: "map fst (transactions (snd (transfer_demo 50))) = [''tx-1'']"
    by (simp add: transfer_demo_def demo_defs op_defs engine_defs Let_def)
  then have len: "length (list_all_transactions (snd (transfer_demo 50))) = 1"
    by (simp add: list_all_transactions_def flip: length_map [of fst])
  have fresh: "''tx-2'' \<notin> fst ` set (transactions (snd (transfer_demo 50)))"
    using one by (simp flip: set_map)
  have fail: "fst (execute_transfer Digest (env_at ''tx-2'') ''w1'' ''w2'' ''t1'' None (snd (transfer_demo 50)))
     = Inl SenderDoesNotOwnToken"
    by (simp add: transfer_demo_def demo_defs op_defs engine_defs Let_def)
  then have eq: "execute_transfer Digest (env_at ''tx-2'') ''w1'' ''w2'' ''t1'' None (snd (transfer_demo 50))
     = (Inl SenderDoesNotOwnToken,
        snd (execute_transfer Digest (env_at ''tx-2'') ''w1'' ''w2'' ''t1'' None (snd (transfer_demo 50))))"
    by (simp add: prod_eq_iff)
  from only_completed_stored [OF r, of "''w1''" "env_at ''tx-2''" "''w1''" "''w2''" "''t1''" None
      SenderDoesNotOwnToken
      "snd (execute_transfer Digest (env_at ''tx-2'') ''w1'' ''w2'' ''t1'' None (snd (transfer_demo 50)))"]
    eq fresh
  have a: "\<forall>tx \<in> set (list_all_transactions (snd (transfer_demo 50))). status tx = COMPLETED"
    and f: "get_failed_transactions (snd (transfer_demo 50)) = []"
    and g: "get_transaction
     (snd (execute_transfer Digest (env_at ''tx-2'') ''w1'' ''w2'' ''t1'' None (snd (transfer_demo 50))))
     ''tx-2'' = None"
    by (simp_all add: env_at_def)
  from a len have "map status (list_all_transactions (snd (transfer_demo 50))) = [COMPLETED]"
    by (cases "list_all_transactions (snd (transfer_demo 50))") auto
  with r f fail fresh g show ?thesis by simp
qed

section \<open>Voucher counts are an invariant\<close>

lemma unused_of_vouchers: "vouchers s' = vouchers s \<Longrightarrow> unused_of s' = unused_of s"
  by (simp add: unused_of_def fun_eq_iff)

lemma finite_unused_of: "finite (dom (vouchers s)) \<Longrightarrow> finite (unused_of s w)"
  by (rule finite_subset [of _ "dom (vouchers s)"]) (auto simp: unused_of_def)

lemma vouch_ok_view:
  "vouch_ok s =
     (finite (dom (snd (voucher_view s))) \<and>
      (\<forall>k v. snd (voucher_view s) k = Some v \<longrightarrow> fst (voucher_view s) (issued_to_wallet_id v) \<noteq> None) \<and>
      (\<forall>w b. fst (voucher_view s) w = Some b \<longrightarrow>
         b = int (card {k. \<exists>v. snd (voucher_view s) k = Some v \<and> issued_to_wallet_id v = w \<and> \<not> is_used v})))"
  by (auto simp: vouch_ok_def voucher_view_def unused_of_def dom_def)

lemma vouch_ok_cong: "voucher_view s' = voucher_view s \<Longrightarrow> vouch_ok s' = vouch_ok s"
  unfolding vouch_ok_view by simp

lemma voucher_view_frame [simp]:
  "voucher_view (snd (check_transaction e tx tok s)) = voucher_view s"
  "voucher_view (snd (store_transaction e tx s)) = voucher_view s"
  "voucher_view (set_offline oid otx s) = voucher_view s"
  "voucher_view (s\<lparr>transactions := ts\<rparr>) = voucher_view s"
  "voucher_view (s\<lparr>offline_transactions := os\<rparr>) = voucher_view s"
  by (simp_all add: voucher_view_def)

lemma vouch_ok_frame [simp]:
  "vouch_ok (snd (transfer_token tid a b s)) = vouch_ok s"
  "vouch_ok (snd (check_transaction e tx tok s)) = vouch_ok s"
  "vouch_ok (snd (store_transaction e tx s)) = vouch_ok s"
  "vouch_ok (set_offline oid otx s) = vouch_ok s"
  "vouch_ok (s\<lparr>transactions := ts\<rparr>) = vouch_ok s"
  "vouch_ok (s\<lparr>offline_transactions := os\<rparr>) = vouch_ok s"
  by (rule vouch_ok_cong, simp)+

lemma vouch_okD:
  assumes "vouch_ok s"
  shows "finite (dom (vouchers s))"
    "vouchers s k = Some v \<Longrightarrow> issued_to_wallet_id v \<in> dom (wallets s)"
    "wallets s w = Some wal \<Longrightarrow> voucher_balance wal = int (card (unused_of s w))"
  using assms unfolding vouch_ok_def by blast+

lemma vouch_ok_create_wallet:
  assumes "vouch_ok s" "wid \<notin> dom (wallets s)" "create_wallet wid pub priv s = Inr r"
  shows "vouch_ok (snd r)"
proof -
  from create_wallet_Inr [OF assms(3)] have r:
    "snd r = s\<lparr>wallets := (wallets s)(wid \<mapsto> \<lparr> wallet_id = wid, public_key = pub,
        private_key = priv, token_balance = [], voucher_balance = 0 \<rparr>)\<rparr>"
    by simp
  have u: "unused_of (snd r) = unused_of s"
    by (rule unused_of_vouchers) (simp add: r)
  have none: "unused_of s wid = {}"
    using vouch_okD(2) [OF assms(1)] assms(2) by (auto simp: unused_of_def)
  show ?thesis
    unfolding vouch_ok_def u
    using vouch_okD [OF assms(1)] none by (auto simp: r)
qed

lemma vouch_ok_issue_token:
  assumes "vouch_ok s" "issue_token e v owner s = Inr r"
  shows "vouch_ok (snd r)"
proof -
  from issue_token_Inr [OF assms(2)] have "voucher_view (snd r) = voucher_view s"
    by (auto simp: voucher_view_def add_token_def fun_eq_iff)
  from vouch_ok_cong [OF this] assms(1) show ?thesis by simp
qed

lemma vouch_ok_issue_voucher:
  assumes "vouch_ok s" "uuid4 e \<notin> dom (vouchers s)" "issue_voucher e g wid limit s = Inr r"
  shows "vouch_ok (snd r)"
proof -
  from issue_voucher_Inr [OF assms(3)] obtain wal where wal: "wallets s wid = Some wal"
    and r: "snd r = s\<lparr>vouchers := (vouchers s)(uuid4 e \<mapsto> fst r),
                 wallets := (wallets s)(wid \<mapsto> add_voucher 1 wal)\<rparr>"
    and v: "issued_to_wallet_id (fst r) = wid" "\<not> is_used (fst r)"
    by blast
  have fresh: "uuid4 e \<notin> unused_of s w" for w
    using assms(2) by (auto simp: unused_of_def)
  have u: "unused_of (snd r) w = (if w = wid then insert (uuid4 e) (unused_of s wid) else unused_of s w)"
    for w
    using v assms(2) by (auto simp: r unused_of_def)
  have fin: "finite (unused_of s w)" for w
    using finite_unused_of [OF vouch_okD(1) [OF assms(1)]] .
  show ?thesis
    unfolding vouch_ok_def u
    using vouch_okD [OF assms(1)] wal v fresh fin
    by (auto simp: r add_voucher_def)
qed

text \<open>A successful \<open>redeem_voucher\<close>, step by step.\<close>

lemma redeem_voucher_True:
  assumes "redeem_voucher vid txid x s = (True, s')"
  shows "\<exists>v. vouchers s vid = Some v \<and> \<not> is_used v \<and> x \<le> value_limit v \<and>
           s' = with_wallet (issued_to_wallet_id v) (\<lambda>w. snd (use_voucher w))
                  (s\<lparr>vouchers := (vouchers s)
                        (vid \<mapsto> v\<lparr>is_used := True, used_in_transaction := Some txid\<rparr>)\<rparr>)"
  using assms
  by (auto simp: redeem_voucher_def get_voucher_def can_be_used_for_value_def mark_as_used_def
      Let_def split: option.splits if_splits)

lemma redeem_voucher_effect:
  assumes "vouch_ok s" "redeem_voucher vid txid x s = (True, s')"
  shows "\<exists>v wal. vouchers s vid = Some v \<and> \<not> is_used v \<and> x \<le> value_limit v \<and>
           wallets s (issued_to_wallet_id v) = Some wal \<and> 0 < voucher_balance wal \<and>
           s' = s\<lparr>vouchers := (vouchers s)
                      (vid \<mapsto> v\<lparr>is_used := True, used_in_transaction := Some txid\<rparr>),
                  wallets := (wallets s)
                      (issued_to_wallet_id v \<mapsto> wal\<lparr>voucher_balance := voucher_balance wal - 1\<rparr>)\<rparr>"
proof -
  from redeem_voucher_True [OF assms(2)] obtain v where
    v: "vouchers s vid = Some v" "\<not> is_used v" "x \<le> value_limit v"
    and s': "s' = with_wallet (issued_to_wallet_id v) (\<lambda>w. snd (use_voucher w))
                  (s\<lparr>vouchers := (vouchers s)
                        (vid \<mapsto> v\<lparr>is_used := True, used_in_transaction := Some txid\<rparr>)\<rparr>)"
    by blast
  from vouch_okD(2) [OF assms(1) v(1)] obtain wal where
    wal: "wallets s (issued_to_wallet_id v) = Some wal" by blast
  have "vid \<in> unused_of s (issued_to_wallet_id v)"
    using v by (simp add: unused_of_def)
  moreover have "finite (unused_of s (issued_to_wallet_id v))"
    using finite_unused_of [OF vouch_okD(1) [OF assms(1)]] .
  ultimately have "0 < card (unused_of s (issued_to_wallet_id v))"
    by (auto simp: card_gt_0_iff)
  with vouch_okD(3) [OF assms(1) wal] have pos: "0 < voucher_balance wal" by simp
  show ?thesis
    using v wal pos by (simp add: s' with_wallet_def get_wallet_def use_voucher_def)
qed

lemma vouch_ok_redeem_voucher:
  assumes "vouch_ok s"
  shows "vouch_ok (snd (redeem_voucher vid txid x s))"
proof (cases "fst (redeem_voucher vid txid x s)")
  case False
  then have "redeem_voucher vid txid x s = (False, snd (redeem_voucher vid txid x s))"
    by (simp add: prod_eq_iff)
  from redeem_voucher_False [OF this] assms show ?thesis by simp
next
  case True
  then have "redeem_voucher vid txid x s = (True, snd (redeem_voucher vid txid x s))"
    by (simp add: prod_eq_iff)
  from redeem_voucher_effect [OF assms this] obtain v wal where
    v: "vouchers s vid = Some v" "\<not> is_used v"
    and wal: "wallets s (issued_to_wallet_id v) = Some wal" "0 < voucher_balance wal"
    and s': "snd (redeem_voucher vid txid x s) =
       s\<lparr>vouchers := (vouchers s)
                      (vid \<mapsto> v\<lparr>is_used := True, used_in_transaction := Some txid\<rparr>),
         wallets := (wallets s)
                      (issued_to_wallet_id v \<mapsto> wal\<lparr>voucher_balance := voucher_balance wal - 1\<rparr>)\<rparr>"
    by blast
  have u: "unused_of (snd (redeem_voucher vid txid x s)) w =
      (if w = issued_to_wallet_id v then unused_of s w - {vid} else unused_of s w)" for w
    using v by (auto simp: s' unused_of_def)
  have mem: "vid \<in> unused_of s (issued_to_wallet_id v)"
    using v by (simp add: unused_of_def)
  have fin: "finite (unused_of s w)" for w
    using finite_unused_of [OF vouch_okD(1) [OF assms]] .
  have c: "int (card (unused_of s (issued_to_wallet_id v) - {vid})) = voucher_balance wal - 1"
    using vouch_okD(3) [OF assms wal(1)] mem fin [of "issued_to_wallet_id v"] wal(2)
    by (simp add: card_Diff_singleton)
  show ?thesis
    unfolding vouch_ok_def u
    using vouch_okD [OF assms] v wal c
    by (auto simp: s')
qed

lemma vouch_ok_execute_transfer:
  "vouch_ok s \<Longrightarrow> vouch_ok (snd (execute_transfer D e a b tid vid s))"
  by (simp add: execute_transfer_def execute_body_def Let_def vouch_ok_redeem_voucher
      split: option.splits sum.splits)

lemma vouch_ok_sync:
  "vouch_ok s \<Longrightarrow> vouch_ok (snd (sync_with_ledger e oid s))"
  by (simp add: sync_with_ledger_def Let_def vouch_ok_redeem_voucher split: option.splits)

lemma vouch_ok_exec: "vouch_ok s \<Longrightarrow> admissible c s \<Longrightarrow> vouch_ok (exec D c s)"
proof (cases c)
  case (CreateOffline e a b tid vid)
  assume "vouch_ok s"
  then show ?thesis
    using CreateOffline by (auto split: sum.splits dest!: create_offline_Inr)
next
  case (SignOffline oid wid g)
  assume "vouch_ok s"
  then show ?thesis
    using SignOffline by (simp add: sign_offline_transaction_def Let_def split: option.splits)
qed (auto split: sum.splits
      simp: vouch_ok_create_wallet vouch_ok_issue_token vouch_ok_issue_voucher
        vouch_ok_redeem_voucher vouch_ok_execute_transfer vouch_ok_sync)

lemma reachable_vouch_ok: "reachable D s \<Longrightarrow> vouch_ok s"
proof (induction rule: reachable.induct)
  case (initial ledger_file)
  show ?case by (simp add: vouch_ok_def empty_system_def unused_of_def)
next
  case (step s c)
  then show ?case by (simp add: vouch_ok_exec)
qed

section \<open>Voucher redemption is atomic\<close>

text \<open>
  C9. For every call of \<open>redeem_voucher\<close> in a reachable state, either the call succeeds,
  the voucher (unused before) is marked used with the consuming transaction recorded, and
  the voucher count of the wallet it was issued to is decremented by one; or the call
  fails and nothing at all changes. A voucher marked used with no decrement, or a
  decrement with no voucher marked, does not occur.
\<close>

theorem redemption_atomic:
  assumes "reachable D s" and "redeem_voucher vid txid x s = (ok, s')"
  shows "(ok \<and> (\<exists>v v' wal wal'.
            vouchers s vid = Some v \<and> \<not> is_used v \<and>
            vouchers s' vid = Some v' \<and> is_used v' \<and> used_in_transaction v' = Some txid \<and>
            wallets s (issued_to_wallet_id v) = Some wal \<and>
            wallets s' (issued_to_wallet_id v) = Some wal' \<and>
            voucher_balance wal' = voucher_balance wal - 1)) \<or>
         (\<not> ok \<and> s' = s)"
proof (cases ok)
  case False
  with assms(2) redeem_voucher_False [of vid txid x s s'] show ?thesis by simp
next
  case True
  with assms(2) redeem_voucher_effect [OF reachable_vouch_ok [OF assms(1)], of vid txid x s']
  show ?thesis by auto
qed

theorem redemption_atomic_witness:
  "reachable Digest (sys_demo 50) \<and>
   fst (redeem_voucher ''v1'' ''tx-1'' 10 (sys_demo 50)) \<and>
   map_option voucher_balance (wallets (sys_demo 50) ''w1'') = Some 1 \<and>
   map_option voucher_balance
     (wallets (snd (redeem_voucher ''v1'' ''tx-1'' 10 (sys_demo 50))) ''w1'') = Some 0 \<and>
   map_option is_used
     (vouchers (snd (redeem_voucher ''v1'' ''tx-1'' 10 (sys_demo 50))) ''v1'') = Some True"
proof -
  have r: "reachable Digest (sys_demo 50)" by (rule reachable_sys_demo) simp
  have ok: "fst (redeem_voucher ''v1'' ''tx-1'' 10 (sys_demo 50))"
    by (simp add: demo_defs op_defs Let_def)
  then have eq: "redeem_voucher ''v1'' ''tx-1'' 10 (sys_demo 50)
      = (True, snd (redeem_voucher ''v1'' ''tx-1'' 10 (sys_demo 50)))"
    by (simp add: prod_eq_iff)
  have before: "map_option voucher_balance (wallets (sys_demo 50) ''w1'') = Some 1"
    "map_option issued_to_wallet_id (vouchers (sys_demo 50) ''v1'') = Some ''w1''"
    by (simp_all add: demo_defs op_defs Let_def)
  from redemption_atomic [OF r eq] before r ok
  show ?thesis by auto
qed

section \<open>The ledger and the offline store\<close>

lemmas offline_defs = sys_signed_def offline_setup_def demo_signature_def offline_demo_tx_def
  env_sync_def sys_synced_def create_offline_transaction_def sign_offline_transaction_def
  verify_offline_signature_def offline_payload_def sync_with_ledger_def set_offline_def
  MockTransaction_def jopt_def

lemma dict_set_fresh: "k \<notin> fst ` set xs \<Longrightarrow> dict_set k v xs = xs @ [(k, v)]"
  by (induction xs) auto

lemma ledger_ok_frame [simp]:
  "ledger_ok (snd (transfer_token tid a b s)) = ledger_ok s"
  "ledger_ok (snd (redeem_voucher vid txid x s)) = ledger_ok s"
  "ledger_ok (snd (check_transaction e tx tok s)) = ledger_ok s"
  "ledger_ok (set_offline oid otx s) = ledger_ok s"
  "ledger_ok (s\<lparr>transactions := ts\<rparr>) = ledger_ok s"
  "ledger_ok (s\<lparr>offline_transactions := os\<rparr>) = ledger_ok s"
  by (simp_all add: ledger_ok_def)

lemma ledger_ok_store: "ledger_ok s \<Longrightarrow> ledger_ok (snd (store_transaction e tx s))"
  using set_dict_set [of "entry_counter s" _ "entries s"]
  by (fastforce simp: ledger_ok_def store_transaction_def Let_def)

lemma ledger_ok_load_entries: "ledger_ok s \<Longrightarrow> ledger_ok (load_entries ens s)"
proof (induction ens arbitrary: s)
  case Nil
  then show ?case by simp
next
  case (Cons en ens)
  have "ledger_ok (s\<lparr>entries := dict_set (entry_id en) en (entries s),
          entry_counter := max (entry_counter s) (entry_id en + 1)\<rparr>)"
    using Cons.prems set_dict_set [of "entry_id en" en "entries s"]
    by (fastforce simp: ledger_ok_def)
  from Cons.IH [OF this] show ?case by simp
qed

lemma ledger_ok_execute_transfer:
  "ledger_ok s \<Longrightarrow> ledger_ok (snd (execute_transfer D e a b tid vid s))"
  by (simp add: execute_transfer_def execute_body_def Let_def ledger_ok_store
      split: option.splits sum.splits)

lemma ledger_ok_sync:
  "ledger_ok s \<Longrightarrow> ledger_ok (snd (sync_with_ledger e oid s))"
  by (simp add: sync_with_ledger_def Let_def ledger_ok_store split: option.splits)

lemma ledger_ok_cong:
  "entries s' = entries s \<Longrightarrow> entry_counter s' = entry_counter s \<Longrightarrow> ledger_ok s \<Longrightarrow> ledger_ok s'"
  by (simp add: ledger_ok_def)

lemma ledger_ok_exec: "ledger_ok s \<Longrightarrow> ledger_ok (exec D c s)"
proof (cases c)
  case (CreateWallet wid pub priv)
  assume "ledger_ok s"
  then show ?thesis
    using CreateWallet
    by (auto split: sum.splits dest!: create_wallet_Inr intro: ledger_ok_cong [of _ s])
next
  case (IssueToken e v owner)
  assume "ledger_ok s"
  then show ?thesis
    using IssueToken
    by (auto split: sum.splits dest!: issue_token_Inr intro: ledger_ok_cong [of _ s])
next
  case (IssueVoucher e g wid limit)
  assume "ledger_ok s"
  then show ?thesis
    using IssueVoucher
    by (auto split: sum.splits dest!: issue_voucher_Inr intro: ledger_ok_cong [of _ s])
next
  case (CreateOffline e a b tid vid)
  assume "ledger_ok s"
  then show ?thesis
    using CreateOffline
    by (auto split: sum.splits dest!: create_offline_Inr intro: ledger_ok_cong [of _ s])
next
  case (SignOffline oid wid g)
  assume "ledger_ok s"
  then show ?thesis
    using SignOffline
    by (simp add: sign_offline_transaction_def Let_def split: option.splits)
qed (simp_all add: ledger_ok_execute_transfer ledger_ok_sync)

lemma reachable_ledger_ok: "reachable D s \<Longrightarrow> ledger_ok s"
proof (induction rule: reachable.induct)
  case (initial ledger_file)
  show ?case
  proof (cases ledger_file)
    case None
    then show ?thesis by (simp add: load_ledger_def ledger_ok_def empty_system_def)
  next
    case (Some ens)
    have "ledger_ok (empty_system\<lparr>entries := []\<rparr> :: 'a system)"
      by (simp add: ledger_ok_def)
    from ledger_ok_load_entries [OF this] Some show ?thesis
      by (simp add: load_ledger_def)
  qed
next
  case (step s c)
  then show ?case by (simp add: ledger_ok_exec)
qed

lemma off_ok_cong:
  "dom (wallets s) \<subseteq> dom (wallets s') \<Longrightarrow> offline_transactions s' = offline_transactions s \<Longrightarrow>
     off_ok s \<Longrightarrow> off_ok s'"
  by (auto simp: off_ok_def) blast+

lemma off_ok_store [simp]: "off_ok (snd (store_transaction e tx s)) = off_ok s"
  by (simp add: off_ok_def)

lemma off_ok_transfer_token [simp]: "off_ok (snd (transfer_token tid a b s)) = off_ok s"
  by (simp add: off_ok_def)

lemma off_ok_redeem_voucher [simp]: "off_ok (snd (redeem_voucher vid txid x s)) = off_ok s"
  by (simp add: off_ok_def)

lemma off_ok_check [simp]: "off_ok (snd (check_transaction e tx tok s)) = off_ok s"
  by (simp add: off_ok_def)

lemma off_ok_transactions [simp]: "off_ok (s\<lparr>transactions := ts\<rparr>) = off_ok s"
  by (simp add: off_ok_def)

lemma off_ok_set_offline:
  assumes "off_ok s" "offline_transactions s oid = Some otx"
    "off_sender_wallet_id otx' = off_sender_wallet_id otx"
    "off_receiver_wallet_id otx' = off_receiver_wallet_id otx"
    "created_timestamp otx' = created_timestamp otx"
  shows "off_ok (set_offline oid otx' s)"
  using assms by (auto simp: off_ok_def)

lemma off_ok_execute_transfer:
  "off_ok s \<Longrightarrow> off_ok (snd (execute_transfer D e a b tid vid s))"
  by (simp add: execute_transfer_def execute_body_def Let_def split: option.splits sum.splits)

lemma off_ok_sign_offline:
  assumes "off_ok s"
  shows "off_ok (snd (sign_offline_transaction D oid wid g s))"
proof (cases "offline_transactions s oid")
  case None
  with assms show ?thesis by (simp add: sign_offline_transaction_def)
next
  case (Some otx)
  have eq: "s\<lparr>offline_transactions := (offline_transactions s)(oid \<mapsto> x)\<rparr> = set_offline oid x s" for x
    by (simp add: set_offline_def)
  show ?thesis
    using assms Some
    by (auto simp: sign_offline_transaction_def Let_def eq intro!: off_ok_set_offline)
qed

lemma off_ok_sync:
  assumes "off_ok s"
  shows "off_ok (snd (sync_with_ledger e oid s))"
proof (cases "offline_transactions s oid")
  case None
  with assms show ?thesis by (simp add: sync_with_ledger_def)
next
  case (Some otx)
  have a: "off_ok (set_offline oid otx' s')"
    if "off_ok s'" "offline_transactions s' = offline_transactions s"
      "off_sender_wallet_id otx' = off_sender_wallet_id otx"
      "off_receiver_wallet_id otx' = off_receiver_wallet_id otx"
      "created_timestamp otx' = created_timestamp otx" for otx' and s' :: "'a system"
    using that Some by (auto intro!: off_ok_set_offline)
  show ?thesis
    using assms Some
    by (auto simp: sync_with_ledger_def Let_def intro!: a)
qed

lemma off_ok_exec: "off_ok s \<Longrightarrow> admissible c s \<Longrightarrow> off_ok (exec D c s)"
proof (cases c)
  case (CreateWallet wid pub priv)
  assume "off_ok s"
  then show ?thesis
    using CreateWallet
    by (auto split: sum.splits dest!: create_wallet_Inr intro: off_ok_cong [of s])
next
  case (IssueToken e v owner)
  assume "off_ok s"
  then show ?thesis
    using IssueToken
    by (auto split: sum.splits dest!: issue_token_Inr intro: off_ok_cong [of s])
next
  case (IssueVoucher e g wid limit)
  assume "off_ok s"
  then show ?thesis
    using IssueVoucher
    by (auto split: sum.splits dest!: issue_voucher_Inr intro: off_ok_cong [of s])
next
  case (CreateOffline e a b tid vid)
  assume "off_ok s" "admissible c s"
  then show ?thesis
    using CreateOffline
    by (fastforce simp: off_ok_def split: sum.splits if_splits dest!: create_offline_Inr)
qed (simp_all add: off_ok_execute_transfer off_ok_sign_offline off_ok_sync)

lemma reachable_off_ok: "reachable D s \<Longrightarrow> off_ok s"
proof (induction rule: reachable.induct)
  case (initial ledger_file)
  show ?case by (simp add: off_ok_def empty_system_def)
next
  case (step s c)
  then show ?case by (simp add: off_ok_exec)
qed

section \<open>Synchronising a signed offline transfer\<close>

lemma reachable_sys_signed: "0 < v \<Longrightarrow> reachable Digest (sys_signed v vid)"
  unfolding sys_signed_def
  by (rule reachable_run [OF reachable_empty])
     (simp add: offline_defs demo_defs op_defs Let_def)

lemma transfer_token_succeeds:
  assumes "tokens s tid = Some tok" "owner_wallet_id tok = a"
    "a \<in> dom (wallets s)" "b \<in> dom (wallets s)"
  shows "fst (transfer_token tid a b s)"
  using assms
  by (auto simp: transfer_token_def get_token_def wallet_exists_def Let_def)

lemma transfer_token_owner:
  assumes "fst (transfer_token tid a b s)" "b \<noteq> []"
  shows "\<exists>tok'. tokens (snd (transfer_token tid a b s)) tid = Some tok' \<and> owner_wallet_id tok' = b"
proof -
  from assms(1) have "transfer_token tid a b s = (True, snd (transfer_token tid a b s))"
    by (simp add: prod_eq_iff)
  from transfer_token_True [OF this] assms(2) show ?thesis
    by (auto simp: transfer_ownership_def)
qed

lemma redeem_voucher_succeeds:
  assumes "vouchers s vid = Some v" "can_be_used_for_value v x"
  shows "fst (redeem_voucher vid txid x s) \<and>
         (\<exists>v'. vouchers (snd (redeem_voucher vid txid x s)) vid = Some v' \<and> is_used v' \<and>
                used_in_transaction v' = Some txid)"
  using assms
  by (auto simp: redeem_voucher_def get_voucher_def can_be_used_for_value_def mark_as_used_def
      with_wallet_def get_wallet_def Let_def split: option.splits)

lemma store_transaction_entries:
  assumes "ledger_ok s"
  shows "\<exists>en. entries (snd (store_transaction e tx s)) = entries s @ [(entry_counter s, en)] \<and>
           entry_id en = entry_counter s \<and>
           le_transaction_id en = transaction_id tx \<and>
           (truthy (timestamp tx) \<longrightarrow> timestamp tx = Some (le_timestamp en)) \<and>
           le_sender_wallet_id en = sender_wallet_id tx \<and>
           le_receiver_wallet_id en = receiver_wallet_id tx \<and>
           le_token_id en = tx_token_id tx \<and>
           (entry_type en = AML_FLAGGED) = aml_flagged tx"
proof -
  have "entry_counter s \<notin> fst ` set (entries s)"
    using assms by (auto simp: ledger_ok_def)
  from dict_set_fresh [OF this] show ?thesis
    by (cases "timestamp tx") (simp_all add: store_transaction_def Let_def)
qed

text \<open>
  C8. For every offline transfer in status signed, in a reachable state, whose token is
  still owned by the sender and whose voucher, if it has one, is still usable for the
  recorded value: \<open>sync_with_ledger\<close> returns true; the token is then owned by the
  receiver; the voucher, if any, is used, by this offline id; the ledger has exactly one
  more entry, at its end, whose transaction id is the offline id and whose timestamp is
  the creation timestamp of the offline transfer; and the offline transfer is synced, with
  the time of the call as its sync timestamp.
\<close>

theorem sync_succeeds:
  assumes "reachable D s"
    and "offline_transactions s oid = Some otx"
    and "off_status otx = OFF_SIGNED"
    and "tokens s (off_token_id otx) = Some tok"
    and "owner_wallet_id tok = off_sender_wallet_id otx"
    and "\<forall>vid. off_voucher_id otx = Some vid \<and> vid \<noteq> [] \<longrightarrow>
           (\<exists>v. vouchers s vid = Some v \<and> can_be_used_for_value v (off_value otx))"
  shows "\<exists>s' en otx' tok'.
           sync_with_ledger e oid s = (True, s') \<and>
           tokens s' (off_token_id otx) = Some tok' \<and>
           owner_wallet_id tok' = off_receiver_wallet_id otx \<and>
           (\<forall>vid. off_voucher_id otx = Some vid \<and> vid \<noteq> [] \<longrightarrow>
              (\<exists>v'. vouchers s' vid = Some v' \<and> is_used v' \<and>
                     used_in_transaction v' = Some (offline_id otx))) \<and>
           entries s' = entries s @ [(entry_counter s, en)] \<and>
           le_transaction_id en = offline_id otx \<and>
           created_timestamp otx = Some (le_timestamp en) \<and>
           offline_transactions s' oid = Some otx' \<and>
           off_status otx' = OFF_SYNCED \<and>
           synced_timestamp otx' = Some (now e) \<and>
           otx' = otx\<lparr>off_status := OFF_SYNCED, synced_timestamp := Some (now e)\<rparr>"
proof -
  let ?a = "off_sender_wallet_id otx" and ?b = "off_receiver_wallet_id otx"
  let ?t = "off_token_id otx"
  let ?r = "transfer_token ?t ?a ?b s"
  from reachable_off_ok [OF assms(1)] assms(2)
  have doms: "?a \<in> dom (wallets s)" "?b \<in> dom (wallets s)"
    and ts: "truthy (created_timestamp otx)"
    by (auto simp: off_ok_def)
  from doms(2) reachable_own_ok [OF assms(1)] have b: "?b \<noteq> []"
    by (auto simp: own_ok_def)
  have t1: "fst ?r"
    by (rule transfer_token_succeeds [OF assms(4,5) doms])
  from transfer_token_owner [OF t1 b] obtain tok' where
    tok': "tokens (snd ?r) ?t = Some tok'" "owner_wallet_id tok' = ?b"
    by blast
  let ?v = "if truthy (off_voucher_id otx)
            then redeem_voucher (the (off_voucher_id otx)) (offline_id otx) (off_value otx) (snd ?r)
            else (True, snd ?r)"
  have v1: "fst ?v \<and>
      (\<forall>vid. off_voucher_id otx = Some vid \<and> vid \<noteq> [] \<longrightarrow>
         (\<exists>v'. vouchers (snd ?v) vid = Some v' \<and> is_used v' \<and>
                used_in_transaction v' = Some (offline_id otx)))"
  proof (cases "truthy (off_voucher_id otx)")
    case False
    then show ?thesis by (cases "off_voucher_id otx") auto
  next
    case True
    then obtain vid where vid: "off_voucher_id otx = Some vid" "vid \<noteq> []"
      by (cases "off_voucher_id otx") auto
    with assms(6) obtain v where "vouchers s vid = Some v"
      "can_be_used_for_value v (off_value otx)" by blast
    then have "vouchers (snd ?r) vid = Some v" by simp
    from redeem_voucher_succeeds [OF this \<open>can_be_used_for_value v (off_value otx)\<close>,
        of "offline_id otx"] vid True
    show ?thesis by simp
  qed
  have tokv: "tokens (snd ?v) ?t = Some tok'"
    using tok' by simp
  have lok: "ledger_ok (snd ?v)"
    using reachable_ledger_ok [OF assms(1)] by simp
  from store_transaction_entries [OF lok, of e "MockTransaction otx"]
  obtain en where e1:
    "entries (snd (store_transaction e (MockTransaction otx) (snd ?v)))
       = entries (snd ?v) @ [(entry_counter (snd ?v), en)]"
    "le_transaction_id en = transaction_id (MockTransaction otx)"
    "truthy (timestamp (MockTransaction otx)) \<longrightarrow>
       timestamp (MockTransaction otx) = Some (le_timestamp en)"
    by blast
  have frame: "entries (snd ?v) = entries s" "entry_counter (snd ?v) = entry_counter s"
    by simp_all
  have en:
    "entries (snd (store_transaction e (MockTransaction otx) (snd ?v)))
       = entries s @ [(entry_counter s, en)]"
    "le_transaction_id en = offline_id otx"
    "created_timestamp otx = Some (le_timestamp en)"
    using e1 ts unfolding frame by (simp_all add: MockTransaction_def)
  have run: "sync_with_ledger e oid s =
      (True, set_offline oid (otx\<lparr>off_status := OFF_SYNCED, synced_timestamp := Some (now e)\<rparr>)
               (snd (store_transaction e (MockTransaction otx) (snd ?v))))"
    using assms(2,3) t1 v1 by (simp add: sync_with_ledger_def Let_def)
  show ?thesis
    using run tokv tok'(2) v1 en by simp
qed

theorem sync_succeeds_witness:
  "reachable Digest (sys_signed 25 (Some ''v1'')) \<and>
   map_option off_status (offline_transactions (sys_signed 25 (Some ''v1'')) ''off-1'')
     = Some OFF_SIGNED \<and>
   map_option owner_wallet_id (tokens (sys_signed 25 (Some ''v1'')) ''t1'') = Some ''w1'' \<and>
   fst (sync_with_ledger env_sync ''off-1'' (sys_signed 25 (Some ''v1''))) \<and>
   map_option owner_wallet_id (tokens (sys_synced 25 (Some ''v1'')) ''t1'') = Some ''w2'' \<and>
   map_option is_used (vouchers (sys_synced 25 (Some ''v1'')) ''v1'') = Some True \<and>
   length (entries (sys_synced 25 (Some ''v1'')))
     = length (entries (sys_signed 25 (Some ''v1''))) + 1 \<and>
   map_option off_status (offline_transactions (sys_synced 25 (Some ''v1'')) ''off-1'')
     = Some OFF_SYNCED"
proof -
  let ?s = "sys_signed 25 (Some ''v1'')"
  let ?o = "(offline_demo_tx 25 (Some ''v1''))
        \<lparr>sender_signature := Some (demo_signature 25 (Some ''v1'') ''key1''),
         receiver_signature := Some (demo_signature 25 (Some ''v1'') ''key2''),
         off_status := OFF_SIGNED\<rparr>"
  let ?tok = "\<lparr> token_id = ''t1'', token_value = 25,
      owner_wallet_id = ''w1'', issued_by = ''ECB'', issue_timestamp = None \<rparr>"
  have r: "reachable Digest ?s" by (rule reachable_sys_signed) simp
  have otx: "offline_transactions ?s ''off-1'' = Some ?o"
    by (simp add: offline_defs demo_defs op_defs engine_defs Let_def)
  have st: "off_status ?o = OFF_SIGNED" by simp
  have tok: "tokens ?s (off_token_id ?o) = Some ?tok"
    by (simp add: offline_defs demo_defs op_defs engine_defs Let_def)
  have own: "owner_wallet_id ?tok = off_sender_wallet_id ?o"
    by (simp add: offline_demo_tx_def)
  have v: "\<forall>vid. off_voucher_id ?o = Some vid \<and> vid \<noteq> [] \<longrightarrow>
           (\<exists>v. vouchers ?s vid = Some v \<and> can_be_used_for_value v (off_value ?o))"
    by (simp add: offline_defs demo_defs op_defs engine_defs Let_def)
  from sync_succeeds [OF r otx st tok own v, of env_sync]
  obtain s' en otx' tok' where
    run: "sync_with_ledger env_sync ''off-1'' ?s = (True, s')"
    and res: "tokens s' ''t1'' = Some tok'" "owner_wallet_id tok' = ''w2''"
      "\<exists>v'. vouchers s' ''v1'' = Some v' \<and> is_used v'"
      "entries s' = entries ?s @ [(entry_counter ?s, en)]"
      "offline_transactions s' ''off-1'' = Some otx'" "off_status otx' = OFF_SYNCED"
    by (auto simp: offline_demo_tx_def)
  from run have s': "sys_synced 25 (Some ''v1'') = s'"
    by (simp add: sys_synced_def)
  show ?thesis
    using r otx tok run res by (auto simp: s' offline_demo_tx_def)
qed

section \<open>The offline state machine\<close>

lemma reachable_sys_synced: "0 < v \<Longrightarrow> reachable Digest (sys_synced v vid)"
proof -
  assume "0 < v"
  then have "reachable Digest (sys_signed v vid)" by (rule reachable_sys_signed)
  from reachable.step [OF this, of "SyncWithLedger env_sync ''off-1''"]
  show ?thesis by (simp add: sys_synced_def) (simp add: env_sync_def)
qed

text \<open>
  The gate of \<open>sync_with_ledger\<close>: on an offline transfer that is unknown, pending,
  synced or failed it returns false and the state is the one it was given.
\<close>

lemma sync_gated:
  assumes "\<forall>otx. offline_transactions s oid = Some otx \<longrightarrow> off_status otx \<noteq> OFF_SIGNED"
  shows "sync_with_ledger e oid s = (False, s)"
  using assms by (auto simp: sync_with_ledger_def split: option.splits)

text \<open>
  \<open>sign_offline_transaction\<close> does not read the status: with the receiver's signature
  in place, a valid signature of the sender sets the status to signed, whatever it was.
\<close>

lemma sign_ignores_status:
  assumes "offline_transactions s oid = Some otx"
    and "wallets s (off_sender_wallet_id otx) = Some w"
    and "receiver_signature otx \<noteq> None"
  shows "sign_offline_transaction D oid (off_sender_wallet_id otx)
           (D (offline_payload otx) (private_key w)) s
         = (True, set_offline oid
              (otx\<lparr>sender_signature := Some (D (offline_payload otx) (private_key w)),
                   off_status := OFF_SIGNED\<rparr>) s)"
  using assms
  by (simp add: sign_offline_transaction_def verify_offline_signature_def get_wallet_def
      sign_transaction_def set_offline_def Let_def)

text \<open>
  C7 (what the code does). The claim is that an offline transfer only moves from pending
  to signed to synced, or from signed to failed. In Scenario D, after the transfer is
  synced, the sender's signature is submitted once more: \<open>sign_offline_transaction\<close>
  accepts it and the status goes from synced back to signed; the next
  \<open>sync_with_ledger\<close> runs the transfer again, fails (the receiver owns the token now)
  and leaves the record failed.
\<close>

theorem synced_transfer_is_signed_again:
  "map_option off_status (offline_transactions (sys_synced 25 None) ''off-1'') = Some OFF_SYNCED \<and>
   fst (sign_offline_transaction Digest ''off-1'' ''w1'' (demo_signature 25 None ''key1'')
          (sys_synced 25 None)) \<and>
   map_option off_status
     (offline_transactions
        (snd (sign_offline_transaction Digest ''off-1'' ''w1'' (demo_signature 25 None ''key1'')
                (sys_synced 25 None))) ''off-1'') = Some OFF_SIGNED \<and>
   \<not> fst (sync_with_ledger env_sync ''off-1''
            (snd (sign_offline_transaction Digest ''off-1'' ''w1'' (demo_signature 25 None ''key1'')
                    (sys_synced 25 None)))) \<and>
   map_option off_status
     (offline_transactions
        (snd (sync_with_ledger env_sync ''off-1''
            (snd (sign_offline_transaction Digest ''off-1'' ''w1'' (demo_signature 25 None ''key1'')
                    (sys_synced 25 None))))) ''off-1'') = Some OFF_FAILED"
  by (simp add: offline_defs demo_defs op_defs engine_defs Let_def)

section \<open>Offline transfers and compliance\<close>

text \<open>
  \<open>sync_with_ledger\<close> has no access to the compliance manager: whatever it is given, the
  AML registry and the authority flag are as before.
\<close>

lemma sync_never_scores:
  "aml_registry (snd (sync_with_ledger e oid s)) = aml_registry s \<and>
   authority_contacted (snd (sync_with_ledger e oid s)) = authority_contacted s"
  by (simp add: sync_with_ledger_def Let_def split: option.splits)

text \<open>
  C1 (what the code does). The claim is that every completed transfer, online or offline,
  is scored before it is recorded. An offline transfer of a token of value 150 with no
  voucher is signed and synced: the sync succeeds, the AML registry stays empty and the
  ledger entry is of type non-anonymous. The same transfer through \<open>execute_transfer\<close>
  is scored: one AML entry, escalated, and a ledger entry of type AML-flagged.
\<close>

theorem offline_transfer_is_not_scored:
  "fst (sync_with_ledger env_sync ''off-1'' (sys_signed 150 None)) \<and>
   map_option off_status (offline_transactions (sys_synced 150 None) ''off-1'') = Some OFF_SYNCED \<and>
   aml_registry (sys_synced 150 None) = [] \<and>
   map (\<lambda>p. (le_transaction_id (snd p), le_value (snd p), entry_type (snd p)))
     (entries (sys_synced 150 None)) = [(''off-1'', 150, NON_ANONYMOUS)] \<and>
   map (\<lambda>a. (aml_transaction_id a, aml_amount a, aml_risk_score a, escalated a))
     (aml_registry (snd (transfer_demo 150))) = [(''tx-1'', 150, 1, True)] \<and>
   map (\<lambda>p. (le_transaction_id (snd p), le_value (snd p), entry_type (snd p)))
     (entries (snd (transfer_demo 150))) = [(''tx-1'', 150, AML_FLAGGED)]"
  by (simp add: transfer_demo_def offline_defs demo_defs op_defs engine_defs Let_def)

section \<open>Vouchers are used once\<close>

lemma used_voucher_redeem:
  "vouchers s k = Some v \<Longrightarrow> is_used v \<Longrightarrow>
     vouchers (snd (redeem_voucher vid txid x s)) k = Some v"
  by (auto simp: redeem_voucher_def get_voucher_def can_be_used_for_value_def mark_as_used_def
      with_wallet_def get_wallet_def Let_def split: option.splits)

lemma used_voucher_execute_transfer:
  "vouchers s k = Some v \<Longrightarrow> is_used v \<Longrightarrow>
     vouchers (snd (execute_transfer D e a b tid vid s)) k = Some v"
  by (simp add: execute_transfer_def execute_body_def Let_def used_voucher_redeem
      split: option.splits sum.splits)

lemma used_voucher_sync:
  "vouchers s k = Some v \<Longrightarrow> is_used v \<Longrightarrow>
     vouchers (snd (sync_with_ledger e oid s)) k = Some v"
  by (simp add: sync_with_ledger_def Let_def used_voucher_redeem split: option.splits)

lemma used_voucher_exec:
  assumes "vouchers s k = Some v" "is_used v" "admissible c s"
  shows "vouchers (exec D c s) k = Some v"
proof (cases c)
  case (IssueVoucher e g wid limit)
  with assms(3) have "uuid4 e \<noteq> k" using assms(1) by auto
  with assms(1) IssueVoucher show ?thesis
    by (auto split: sum.splits dest!: issue_voucher_Inr)
qed (use assms in \<open>auto simp: used_voucher_redeem used_voucher_execute_transfer used_voucher_sync
      sign_offline_transaction_def Let_def
      split: sum.splits option.splits
      dest!: create_wallet_Inr issue_token_Inr create_offline_Inr\<close>)

text \<open>
  C4. A voucher is redeemed at most once: after a successful \<open>redeem_voucher\<close> the
  voucher is used and records the consuming transaction, and a further call on the same
  voucher id, for any transaction id and value, returns false and leaves the whole state
  (the voucher's flag and consuming transaction, every other voucher, every wallet) as it
  was. The same holds for a call on any voucher that is already used, and no operation of
  the system changes a used voucher, so it stays used.
\<close>

theorem voucher_single_use:
  "(redeem_voucher vid txid x s = (True, s') \<longrightarrow>
      (\<exists>v. vouchers s' vid = Some v \<and> is_used v \<and> used_in_transaction v = Some txid) \<and>
      redeem_voucher vid txid' x' s' = (False, s')) \<and>
   (vouchers s vid = Some v \<and> is_used v \<longrightarrow>
      redeem_voucher vid txid' x' s = (False, s) \<and>
      (admissible c s \<longrightarrow> vouchers (exec D c s) vid = Some v))"
proof -
  have a: "vouchers s vid = Some v \<and> is_used v \<longrightarrow>
      (admissible c s \<longrightarrow> vouchers (exec D c s) vid = Some v)"
    using used_voucher_exec [of s vid v c D] by blast
  have b: "(redeem_voucher vid txid x s = (True, s') \<longrightarrow>
      (\<exists>v. vouchers s' vid = Some v \<and> is_used v \<and> used_in_transaction v = Some txid) \<and>
      redeem_voucher vid txid' x' s' = (False, s')) \<and>
   (vouchers s vid = Some v \<and> is_used v \<longrightarrow> redeem_voucher vid txid' x' s = (False, s))"
    by (auto simp: redeem_voucher_def get_voucher_def can_be_used_for_value_def mark_as_used_def
        with_wallet_def get_wallet_def Let_def split: option.splits if_splits)
  from a b show ?thesis by blast
qed

theorem voucher_single_use_witness:
  "fst (redeem_voucher ''v1'' ''tx-1'' 10 (sys_demo 50)) \<and>
   redeem_voucher ''v1'' ''tx-2'' 10 (snd (redeem_voucher ''v1'' ''tx-1'' 10 (sys_demo 50)))
     = (False, snd (redeem_voucher ''v1'' ''tx-1'' 10 (sys_demo 50))) \<and>
   map_option used_in_transaction
       (vouchers (snd (redeem_voucher ''v1'' ''tx-1'' 10 (sys_demo 50))) ''v1'')
     = Some (Some ''tx-1'') \<and>
   map_option used_in_transaction
       (vouchers (exec Digest (IssueVoucher (env_at ''v2'') ''authority-signature'' ''w1'' 100)
                    (snd (redeem_voucher ''v1'' ''tx-1'' 10 (sys_demo 50)))) ''v1'')
     = Some (Some ''tx-1'')"
proof -
  let ?s' = "snd (redeem_voucher ''v1'' ''tx-1'' 10 (sys_demo 50))"
  have ok: "fst (redeem_voucher ''v1'' ''tx-1'' 10 (sys_demo 50))"
    by (simp add: demo_defs op_defs Let_def)
  then have eq: "redeem_voucher ''v1'' ''tx-1'' 10 (sys_demo 50) = (True, ?s')"
    by (simp add: prod_eq_iff)
  from voucher_single_use [of "''v1''" "''tx-1''" 10 "sys_demo 50" ?s' "''tx-2''" 10] eq
  obtain v where v: "vouchers ?s' ''v1'' = Some v" "is_used v"
    "used_in_transaction v = Some ''tx-1''"
    and again: "redeem_voucher ''v1'' ''tx-2'' 10 ?s' = (False, ?s')"
    by blast
  have adm: "admissible (IssueVoucher (env_at ''v2'') ''authority-signature'' ''w1'' 100 :: digest command) ?s'"
    by (simp add: demo_defs op_defs Let_def)
  from voucher_single_use [of "''v1''" "''tx-1''" 10 ?s' ?s' "''tx-2''" 10 v
      "IssueVoucher (env_at ''v2'') ''authority-signature'' ''w1'' 100" Digest] v adm
  have "vouchers (exec Digest (IssueVoucher (env_at ''v2'') ''authority-signature'' ''w1'' 100) ?s')
          ''v1'' = Some v"
    by blast
  with ok again v show ?thesis by simp
qed

end
